theory Spec2Isabelle
  imports Complex_Main "HOL-Library.Word" "HOL-Library.Log_Nat" "HOL-Library.Multiset"
begin

unbundle bit_operations_syntax

section \<open>JavaScript numbers\<close>

text \<open>
  The dataset triggers compute two values in double precision: the shuffle index
  \<^verbatim>\<open>Math.floor(random() * (i + 1))\<close> and the progress percentage
  \<^verbatim>\<open>Math.round(((currentIndex + 1) / effectiveTotal) * 100)\<close>.  A finite double is a
  rational number, so doubles are values of type \<^typ>\<open>rat\<close> and every arithmetic
  operation of the source is the exact operation followed by \<open>fl\<close>, rounding to the
  nearest number with a 53-bit significand, ties to the even significand.  The exponent
  range is not bounded: all quantities of the triggers are quotients and products of
  integers below \<open>2^53\<close> (array lengths, indices and residues modulo 1000000), far from
  overflow, and a product of a double with an integer that falls into the subnormal
  range is exact in both readings.

  Integer-valued options and counters (\<^verbatim>\<open>startRow\<close>, \<^verbatim>\<open>endRow\<close>,
  \<^verbatim>\<open>stepSize\<close>, \<^verbatim>\<open>maxRows\<close>, \<^verbatim>\<open>shuffleSeed\<close>, the cursor) are integers of
  type \<^typ>\<open>int\<close>; \<^verbatim>\<open>undefined\<close> is \<open>None\<close>.
\<close>

definition rne :: "rat \<Rightarrow> int" where
  "rne q = (let f = \<lfloor>q\<rfloor>; r = q - of_int f
            in if r < 1 / 2 then f else if 1 / 2 < r then f + 1
               else if even f then f else f + 1)"

definition binade :: "rat \<Rightarrow> int" where
  "binade x = (case quotient_of x of (a, b) \<Rightarrow>
                 let d = bitlen a - bitlen b in if 2 powi d \<le> x then d else d - 1)"

definition fl :: "rat \<Rightarrow> rat" where
  "fl x = (if x = 0 then 0
           else let u = 2 powi (binade \<bar>x\<bar> - 52) in of_int (rne (x / u)) * u)"

definition is_double :: "rat \<Rightarrow> bool" where
  "is_double x = (fl x = x)"

definition Math_floor :: "rat \<Rightarrow> int" where
  "Math_floor x = \<lfloor>x\<rfloor>"

definition Math_round :: "rat \<Rightarrow> int" where
  "Math_round x = \<lfloor>x + 1 / 2\<rfloor>"

definition Math_max :: "int \<Rightarrow> int \<Rightarrow> int" where
  "Math_max a b = max a b"

definition Math_min :: "int \<Rightarrow> int \<Rightarrow> int" where
  "Math_min a b = min a b"

text \<open>\<^verbatim>\<open>Array.prototype.slice(start, end)\<close> for integer arguments: a negative index counts
  from the end of the array, and both indices are clamped into \<open>[0, length]\<close>.\<close>

definition slice :: "'a list \<Rightarrow> int \<Rightarrow> int \<Rightarrow> 'a list" where
  "slice xs start fin =
     (let len = int (length xs);
          k = (if start < 0 then max (len + start) 0 else min start len);
          final = (if fin < 0 then max (len + fin) 0 else min fin len)
      in take (nat (final - k)) (drop (nat k) xs))"

text \<open>\<^verbatim>\<open>xs.filter((_, index) => p(index))\<close>.\<close>

definition filter_index :: "(nat \<Rightarrow> bool) \<Rightarrow> 'a list \<Rightarrow> 'a list" where
  "filter_index p xs = map snd (filter (\<lambda>(index, _). p index) (enumerate 0 xs))"


section \<open>Data model\<close>

text \<open>\<^verbatim>\<open>LangWatchDatasetRow\<close> (shared/types); the opaque \<^verbatim>\<open>entry\<close> is kept as text.\<close>

record row =
  r_id :: string
  r_datasetId :: string
  r_projectId :: string
  r_entry :: string
  r_createdAt :: string
  r_updatedAt :: string

text \<open>\<^verbatim>\<open>ProcessingOptions & { resetProgress?: boolean; shuffleSeed?: number }\<close>: a
  collection parameter holds only the options the user added, every field is optional.\<close>

record ProcessingOptions =
  limitRows :: "bool option"
  maxRows :: "int option"
  startRow :: "int option"
  endRow :: "int option"
  stepSize :: "int option"
  shuffleRows :: "bool option"
  resetProgress :: "bool option"
  shuffleSeed :: "int option"

text \<open>The node's workflow static data (\<^verbatim>\<open>getWorkflowStaticData('node')\<close>).\<close>

record staticData =
  s_processedDataset :: "row list option"
  s_datasetId :: "string option"
  s_shuffleRows :: "bool option"
  s_shuffleSeed :: "int option"
  s_cursor :: "int option"

record Progress =
  current :: int
  total :: int
  percentage :: int
  remaining :: int

record LangwatchDataset =
  lw_id :: string
  lw_rowId :: string
  lw_rowNumber :: int

text \<open>The emitted item (\<^verbatim>\<open>outputData\<close>); \<open>rowsLeft\<close> is the field \<^verbatim>\<open>_rowsLeft\<close>,
  \<open>progress\<close> is \<^verbatim>\<open>_progress\<close>, \<open>langwatch\<close> is \<^verbatim>\<open>_langwatch.dataset\<close>.\<close>

record outputData =
  row_number :: int
  rowsLeft :: int
  progress :: Progress
  entry :: string
  datasetId :: string
  projectId :: string
  row_id :: string
  createdAt :: string
  updatedAt :: string
  langwatch :: LangwatchDataset

text \<open>The three \<^verbatim>\<open>NodeOperationError\<close>s of the triggers: \<open>CollectionEmpty\<close> is
  \<^verbatim>\<open>'No rows found in dataset'\<close>, \<open>RowsExhausted\<close> is \<^verbatim>\<open>'No row found'\<close> and
  \<open>TransportFailure\<close> is \<^verbatim>\<open>'Failed to fetch dataset row'\<close>, the wrapper of every other
  exception.\<close>

datatype error = CollectionEmpty | RowsExhausted | TransportFailure

text \<open>The answer of \<^verbatim>\<open>GET /api/dataset/{id}\<close>: the request throws (\<open>Failed\<close>) or
  returns a body whose \<^verbatim>\<open>data\<close> field is absent or falsy (\<open>Missing\<close>), a truthy value
  that is no array (\<open>NotArray\<close>), or an array of rows.\<close>

datatype payload = Missing | NotArray | Rows "row list"

datatype response = Failed | Body payload

text \<open>The random source of one shuffle: \<^verbatim>\<open>Math.random\<close>, read from the stream of
  draws the environment supplies to the invocation, or the xorshift closure over its
  32-bit state \<^verbatim>\<open>s\<close>.\<close>

datatype rng = Ambient nat | Xorshift "32 word"

record outcome =
  result :: "error + outputData"
  static :: staticData
  requests :: "string list"


section \<open>Dataset Row Trigger (LangWatchDatasetRowTrigger.node.ts)\<close>

text \<open>Lines 114--124: \<^verbatim>\<open>random\<close>.  The bitwise operators work on the 32-bit pattern of
  \<^verbatim>\<open>s\<close>; \<^verbatim>\<open>s >>> 0\<close> reads it unsigned.\<close>

definition row_random :: "(nat \<Rightarrow> rat) \<Rightarrow> rng \<Rightarrow> rat \<times> rng" where
  "row_random ambient g =
     (case g of
        Ambient n \<Rightarrow> (ambient n, Ambient (Suc n))
      | Xorshift s \<Rightarrow>
          (let s1 = s XOR push_bit 13 s;
               s2 = s1 XOR drop_bit 17 s1;
               s3 = s2 XOR push_bit 5 s2
           in (fl (of_int (uint s3 mod 1000000) / 1000000), Xorshift s3)))"

text \<open>Lines 125--128: the loop \<^verbatim>\<open>for (let i = length - 1; i > 0; i--)\<close>, by recursion
  on \<^verbatim>\<open>i\<close>.\<close>

fun row_fisher_yates :: "(nat \<Rightarrow> rat) \<Rightarrow> rng \<Rightarrow> nat \<Rightarrow> row list \<Rightarrow> row list" where
  "row_fisher_yates ambient g 0 xs = xs"
| "row_fisher_yates ambient g (Suc i) xs =
     (case row_random ambient g of (r, g') \<Rightarrow>
        let j = nat (Math_floor (fl (r * of_nat (Suc i + 1))))
        in row_fisher_yates ambient g' i (xs[Suc i := xs ! j, j := xs ! Suc i]))"

text \<open>Lines 113--129, inside \<^verbatim>\<open>if (shuffleRows)\<close>.\<close>

definition row_shuffle :: "(nat \<Rightarrow> rat) \<Rightarrow> int option \<Rightarrow> row list \<Rightarrow> row list" where
  "row_shuffle ambient shuffleSeed_opt xs =
     (let seed = (case shuffleSeed_opt of None \<Rightarrow> 0 | Some v \<Rightarrow> v);
          g = (if seed \<noteq> 0 then Xorshift (word_of_int seed) else Ambient 0)
      in row_fisher_yates ambient g (length xs - 1) xs)"

text \<open>Lines 89--93.\<close>

definition needsReload :: "string \<Rightarrow> ProcessingOptions \<Rightarrow> staticData \<Rightarrow> bool" where
  "needsReload dsId opts sd =
     (resetProgress opts = Some True \<or>
      s_processedDataset sd = None \<or>
      s_datasetId sd \<noteq> Some dsId \<or>
      s_shuffleRows sd \<noteq> Some (case shuffleRows opts of None \<Rightarrow> False | Some b \<Rightarrow> b) \<or>
      s_shuffleSeed sd \<noteq> shuffleSeed opts)"

text \<open>Lines 98--135: the reload branch, up to the update of the static data.\<close>

definition reload ::
  "(string \<Rightarrow> response) \<Rightarrow> (nat \<Rightarrow> rat) \<Rightarrow> string \<Rightarrow> ProcessingOptions \<Rightarrow> staticData
     \<Rightarrow> error + row list \<times> staticData" where
  "reload fetch ambient dsId opts sd =
     (case fetch dsId of
        Failed \<Rightarrow> Inl TransportFailure
      | Body Missing \<Rightarrow> Inl CollectionEmpty
      | Body NotArray \<Rightarrow> Inl CollectionEmpty
      | Body (Rows fetched) \<Rightarrow>
          if length fetched = 0 then Inl CollectionEmpty
          else
            let shuffle_on = (case shuffleRows opts of None \<Rightarrow> False | Some b \<Rightarrow> b);
                datasetEntries =
                  (if shuffle_on then row_shuffle ambient (shuffleSeed opts) fetched
                   else fetched)
            in Inr (datasetEntries,
                    sd\<lparr>s_processedDataset := Some datasetEntries,
                       s_datasetId := Some dsId,
                       s_shuffleRows := Some shuffle_on,
                       s_shuffleSeed :=
                         Some (case shuffleSeed opts of None \<Rightarrow> 0 | Some v \<Rightarrow> v),
                       s_cursor := Some 0\<rparr>))"

text \<open>Lines 140--146.\<close>

definition row_window :: "ProcessingOptions \<Rightarrow> row list \<Rightarrow> row list" where
  "row_window opts snapshot =
     (let startIndex = Math_max 0 (case startRow opts of None \<Rightarrow> 0 | Some v \<Rightarrow> v);
          endIndex =
            (case endRow opts of
               None \<Rightarrow> int (length snapshot)
             | Some e \<Rightarrow>
                 if e \<noteq> - 1 then Math_min (e + 1) (int (length snapshot))
                 else int (length snapshot));
          sliced = slice snapshot startIndex endIndex;
          step = (case stepSize opts of None \<Rightarrow> 1 | Some v \<Rightarrow> v)
      in if step > 1 then filter_index (\<lambda>index. int index mod step = 0) sliced
         else sliced)"

text \<open>Line 149.\<close>

definition row_effectiveTotal :: "ProcessingOptions \<Rightarrow> row list \<Rightarrow> int" where
  "row_effectiveTotal opts datasetEntries =
     (if (case limitRows opts of None \<Rightarrow> False | Some b \<Rightarrow> b)
      then Math_min (case maxRows opts of None \<Rightarrow> 10 | Some v \<Rightarrow> v)
             (int (length datasetEntries))
      else int (length datasetEntries))"

text \<open>Lines 158--179.\<close>

definition row_output :: "row \<Rightarrow> int \<Rightarrow> int \<Rightarrow> outputData" where
  "row_output currentRowData currentIndex effectiveTotal =
     (let left = Math_max 0 (effectiveTotal - (currentIndex + 1))
      in \<lparr>row_number = currentIndex,
          rowsLeft = left,
          progress =
            \<lparr>current = currentIndex + 1,
             total = effectiveTotal,
             percentage =
               Math_round
                 (fl (fl (of_int (currentIndex + 1) / of_int effectiveTotal) * 100)),
             remaining = left\<rparr>,
          entry = r_entry currentRowData,
          datasetId = r_datasetId currentRowData,
          projectId = r_projectId currentRowData,
          row_id = r_id currentRowData,
          createdAt = r_createdAt currentRowData,
          updatedAt = r_updatedAt currentRowData,
          langwatch =
            \<lparr>lw_id = r_datasetId currentRowData,
             lw_rowId = r_id currentRowData,
             lw_rowNumber = currentIndex\<rparr>\<rparr>)"

text \<open>Line 148.\<close>

definition row_currentIndex :: "staticData \<Rightarrow> int" where
  "row_currentIndex sd = Math_max 0 (case s_cursor sd of None \<Rightarrow> 0 | Some c \<Rightarrow> c)"

text \<open>Lines 140--184: windowing, the exhaustion check, the emitted item and the advance
  of the cursor.  The cached snapshot itself is never changed here: \<^verbatim>\<open>slice\<close> and
  \<^verbatim>\<open>filter\<close> copy.\<close>

definition emit :: "ProcessingOptions \<Rightarrow> row list \<Rightarrow> staticData \<Rightarrow> (error + outputData) \<times> staticData" where
  "emit opts snapshot sd =
     (let datasetEntries = row_window opts snapshot;
          currentIndex = row_currentIndex sd;
          effectiveTotal = row_effectiveTotal opts datasetEntries
      in if currentIndex \<ge> effectiveTotal then (Inl RowsExhausted, sd)
         else (Inr (row_output (datasetEntries ! nat currentIndex) currentIndex effectiveTotal),
               sd\<lparr>s_cursor := Some (currentIndex + 1)\<rparr>))"

text \<open>\<^verbatim>\<open>execute\<close>, lines 65--192.  \<open>fetch\<close> is the remote service during this invocation,
  \<open>ambient\<close> the draws of \<^verbatim>\<open>Math.random\<close>; \<open>requests\<close> lists the dataset requests the
  invocation sent.  In the branch without reload the snapshot is
  \<^verbatim>\<open>staticData.processedDataset!\<close>, present there by \<open>needsReload\<close>.\<close>

definition execute ::
  "(string \<Rightarrow> response) \<Rightarrow> (nat \<Rightarrow> rat) \<Rightarrow> string \<Rightarrow> ProcessingOptions \<Rightarrow> staticData
     \<Rightarrow> outcome" where
  "execute fetch ambient dsId opts sd =
     (if needsReload dsId opts sd then
        (case reload fetch ambient dsId opts sd of
           Inl e \<Rightarrow> \<lparr>result = Inl e, static = sd, requests = [dsId]\<rparr>
         | Inr (snapshot, sd') \<Rightarrow>
             (case emit opts snapshot sd' of
                (res, sd'') \<Rightarrow> \<lparr>result = res, static = sd'', requests = [dsId]\<rparr>))
      else
        (case emit opts (case s_processedDataset sd of None \<Rightarrow> [] | Some ds \<Rightarrow> ds) sd of
           (res, sd'') \<Rightarrow> \<lparr>result = res, static = sd'', requests = []\<rparr>))"

text \<open>A run of invocations over the persisted static data: each step has its own
  remote answer, random draws, dataset id and options.\<close>

fun run ::
  "((string \<Rightarrow> response) \<times> (nat \<Rightarrow> rat) \<times> string \<times> ProcessingOptions) list \<Rightarrow> staticData
     \<Rightarrow> outcome list" where
  "run [] sd = []"
| "run ((fetch, ambient, dsId, opts) # calls) sd =
     (let out = execute fetch ambient dsId opts sd in out # run calls (static out))"


section \<open>Dataset Batch Trigger (LangWatchDatasetBatchTrigger.node.ts)\<close>

text \<open>Lines 115--125.\<close>

definition batch_random :: "(nat \<Rightarrow> rat) \<Rightarrow> rng \<Rightarrow> rat \<times> rng" where
  "batch_random ambient g =
     (case g of
        Ambient n \<Rightarrow> (ambient n, Ambient (Suc n))
      | Xorshift s \<Rightarrow>
          (let s1 = s XOR push_bit 13 s;
               s2 = s1 XOR drop_bit 17 s1;
               s3 = s2 XOR push_bit 5 s2
           in (fl (of_int (uint s3 mod 1000000) / 1000000), Xorshift s3)))"

text \<open>Lines 126--129.\<close>

fun batch_fisher_yates :: "(nat \<Rightarrow> rat) \<Rightarrow> rng \<Rightarrow> nat \<Rightarrow> row list \<Rightarrow> row list" where
  "batch_fisher_yates ambient g 0 rows = rows"
| "batch_fisher_yates ambient g (Suc i) rows =
     (case batch_random ambient g of (r, g') \<Rightarrow>
        let j = nat (Math_floor (fl (r * of_nat (Suc i + 1))))
        in batch_fisher_yates ambient g' i (rows[Suc i := rows ! j, j := rows ! Suc i]))"

text \<open>Lines 114--130.\<close>

definition batch_shuffle :: "(nat \<Rightarrow> rat) \<Rightarrow> int option \<Rightarrow> row list \<Rightarrow> row list" where
  "batch_shuffle ambient shuffleSeed_opt rows =
     (let seed = (case shuffleSeed_opt of None \<Rightarrow> 0 | Some v \<Rightarrow> v);
          g = (if seed \<noteq> 0 then Xorshift (word_of_int seed) else Ambient 0)
      in batch_fisher_yates ambient g (length rows - 1) rows)"

text \<open>Lines 132--138.\<close>

definition batch_window :: "ProcessingOptions \<Rightarrow> row list \<Rightarrow> row list" where
  "batch_window opts rows =
     (let startIndex = Math_max 0 (case startRow opts of None \<Rightarrow> 0 | Some v \<Rightarrow> v);
          endIndex =
            (case endRow opts of
               None \<Rightarrow> int (length rows)
             | Some e \<Rightarrow>
                 if e \<noteq> - 1 then Math_min (e + 1) (int (length rows))
                 else int (length rows));
          sliced = slice rows startIndex endIndex;
          step = (case stepSize opts of None \<Rightarrow> 1 | Some v \<Rightarrow> v)
      in if step > 1 then filter_index (\<lambda>index. int index mod step = 0) sliced
         else sliced)"

text \<open>Line 140.\<close>

definition batch_effectiveTotal :: "ProcessingOptions \<Rightarrow> row list \<Rightarrow> int" where
  "batch_effectiveTotal opts rows =
     (if (case limitRows opts of None \<Rightarrow> False | Some b \<Rightarrow> b)
      then Math_min (case maxRows opts of None \<Rightarrow> 100 | Some v \<Rightarrow> v) (int (length rows))
      else int (length rows))"

text \<open>Lines 146--179, without the experiment context (\<^verbatim>\<open>experimentInfo\<close> is
  \<^verbatim>\<open>null\<close> when no experiment is enabled).\<close>

definition emitRow :: "int \<Rightarrow> row \<Rightarrow> int \<Rightarrow> outputData" where
  "emitRow effectiveTotal r index =
     \<lparr>row_number = index,
      rowsLeft = Math_max 0 (effectiveTotal - (index + 1)),
      progress =
        \<lparr>current = index + 1,
         total = effectiveTotal,
         percentage =
           Math_round (fl (fl (of_int (index + 1) / of_int effectiveTotal) * 100)),
         remaining = Math_max 0 (effectiveTotal - (index + 1))\<rparr>,
      entry = r_entry r,
      datasetId = r_datasetId r,
      projectId = r_projectId r,
      row_id = r_id r,
      createdAt = r_createdAt r,
      updatedAt = r_updatedAt r,
      langwatch = \<lparr>lw_id = r_datasetId r, lw_rowId = r_id r, lw_rowNumber = index\<rparr>\<rparr>"

text \<open>Lines 99--141 of \<^verbatim>\<open>trigger\<close>: the list \<^verbatim>\<open>rows\<close> the emitting loop iterates over,
  with \<^verbatim>\<open>effectiveTotal\<close>.  The trigger has no handler around the request, a failed
  request leaves it as the transport's own error.\<close>

definition batch_rows ::
  "(string \<Rightarrow> response) \<Rightarrow> (nat \<Rightarrow> rat) \<Rightarrow> string \<Rightarrow> ProcessingOptions
     \<Rightarrow> error + row list \<times> int" where
  "batch_rows fetch ambient dsId opts =
     (case fetch dsId of
        Failed \<Rightarrow> Inl TransportFailure
      | Body Missing \<Rightarrow> Inl CollectionEmpty
      | Body NotArray \<Rightarrow> Inl CollectionEmpty
      | Body (Rows fetched) \<Rightarrow>
          if length fetched = 0 then Inl CollectionEmpty
          else
            let shuffled =
                  (if (case shuffleRows opts of None \<Rightarrow> False | Some b \<Rightarrow> b)
                   then batch_shuffle ambient (shuffleSeed opts) fetched else fetched);
                windowed = batch_window opts shuffled;
                effectiveTotal = batch_effectiveTotal opts windowed
            in Inr (slice windowed 0 effectiveTotal, effectiveTotal))"

text \<open>Lines 181--188: the items of a run that is not cancelled.\<close>

definition trigger ::
  "(string \<Rightarrow> response) \<Rightarrow> (nat \<Rightarrow> rat) \<Rightarrow> string \<Rightarrow> ProcessingOptions
     \<Rightarrow> error + outputData list" where
  "trigger fetch ambient dsId opts =
     (case batch_rows fetch ambient dsId opts of
        Inl e \<Rightarrow> Inl e
      | Inr (rows, effectiveTotal) \<Rightarrow>
          Inr (map (\<lambda>(i, r). emitRow effectiveTotal r (int i)) (enumerate 0 rows)))"


section \<open>The stepwise row trigger (the earlier LangWatchDatasetRowTrigger)\<close>

text \<open>The source of this trigger is the second text of
  \<^verbatim>\<open>credentials/LangWatchApi.credentials.ts\<close>, after the credential class; its
  \<^verbatim>\<open>execute\<close> is lines 203--339 there.  This trigger has no persisted cursor: the position follows from the item of the
  previous execution, \<^verbatim>\<open>previousRunData\<close>, whose \<^verbatim>\<open>row_number\<close> and \<^verbatim>\<open>_rowsLeft\<close> are
  the two optional numbers below.  Its static data has no seed and no cursor, the
  shuffle draws from \<^verbatim>\<open>Math.random\<close> only.  A negative previous \<^verbatim>\<open>row_number\<close>
  can make the index negative: \<^verbatim>\<open>datasetEntries[currentIndex]\<close> is then
  \<^verbatim>\<open>undefined\<close>, reading its \<^verbatim>\<open>entry\<close> throws, and the handler reports
  \<^verbatim>\<open>'Failed to fetch dataset row'\<close>.  The item of this trigger has no
  \<^verbatim>\<open>_langwatch\<close> field; the component \<open>langwatch\<close> of the record repeats the row's
  identifiers.\<close>

fun stepwise_fisher_yates :: "(nat \<Rightarrow> rat) \<Rightarrow> nat \<Rightarrow> nat \<Rightarrow> row list \<Rightarrow> row list" where
  "stepwise_fisher_yates ambient n 0 xs = xs"
| "stepwise_fisher_yates ambient n (Suc i) xs =
     (let j = nat (Math_floor (fl (ambient n * of_nat (Suc i + 1))))
      in stepwise_fisher_yates ambient (Suc n) i (xs[Suc i := xs ! j, j := xs ! Suc i]))"

definition stepwise_needsReload :: "string \<Rightarrow> ProcessingOptions \<Rightarrow> staticData \<Rightarrow> bool" where
  "stepwise_needsReload dsId opts sd =
     (s_processedDataset sd = None \<or>
      s_datasetId sd \<noteq> Some dsId \<or>
      s_shuffleRows sd \<noteq> Some (case shuffleRows opts of None \<Rightarrow> False | Some b \<Rightarrow> b))"

definition stepwise_window :: "ProcessingOptions \<Rightarrow> row list \<Rightarrow> row list" where
  "stepwise_window opts snapshot =
     (let startIndex = Math_max 0 (case startRow opts of None \<Rightarrow> 0 | Some v \<Rightarrow> v);
          endIndex =
            (case endRow opts of
               None \<Rightarrow> int (length snapshot)
             | Some e \<Rightarrow> Math_min (e + 1) (int (length snapshot)));
          sliced = slice snapshot startIndex endIndex;
          step = (case stepSize opts of None \<Rightarrow> 1 | Some v \<Rightarrow> v)
      in if step > 1 then filter_index (\<lambda>index. int index mod step = 0) sliced
         else sliced)"

definition stepwise_effectiveTotal :: "ProcessingOptions \<Rightarrow> row list \<Rightarrow> int" where
  "stepwise_effectiveTotal opts datasetEntries =
     (if (case limitRows opts of None \<Rightarrow> False | Some b \<Rightarrow> b)
      then Math_min (case maxRows opts of None \<Rightarrow> 10 | Some v \<Rightarrow> v)
             (int (length datasetEntries))
      else int (length datasetEntries))"

definition stepwise_currentIndex :: "int option \<Rightarrow> int option \<Rightarrow> int" where
  "stepwise_currentIndex previousRunRowNumber previousRunRowsLeft =
     (case previousRunRowNumber of
        None \<Rightarrow> 0
      | Some n \<Rightarrow> if previousRunRowsLeft \<noteq> Some 0 then n + 1 else 0)"

definition stepwise_execute ::
  "(string \<Rightarrow> response) \<Rightarrow> (nat \<Rightarrow> rat) \<Rightarrow> string \<Rightarrow> ProcessingOptions
     \<Rightarrow> int option \<Rightarrow> int option \<Rightarrow> staticData \<Rightarrow> outcome" where
  "stepwise_execute fetch ambient dsId opts previousRunRowNumber previousRunRowsLeft sd =
     (let loaded =
            (if stepwise_needsReload dsId opts sd then
               (case fetch dsId of
                  Failed \<Rightarrow> Inl TransportFailure
                | Body Missing \<Rightarrow> Inl CollectionEmpty
                | Body NotArray \<Rightarrow> Inl CollectionEmpty
                | Body (Rows fetched) \<Rightarrow>
                    if length fetched = 0 then Inl CollectionEmpty
                    else
                      let shuffle_on = (case shuffleRows opts of None \<Rightarrow> False | Some b \<Rightarrow> b);
                          datasetEntries =
                            (if shuffle_on
                             then stepwise_fisher_yates ambient 0 (length fetched - 1) fetched
                             else fetched)
                      in Inr (datasetEntries,
                              sd\<lparr>s_processedDataset := Some datasetEntries,
                                 s_datasetId := Some dsId,
                                 s_shuffleRows := Some shuffle_on\<rparr>))
             else Inr (case s_processedDataset sd of None \<Rightarrow> [] | Some ds \<Rightarrow> ds, sd));
          sent = (if stepwise_needsReload dsId opts sd then [dsId] else [])
      in case loaded of
           Inl e \<Rightarrow> \<lparr>result = Inl e, static = sd, requests = sent\<rparr>
         | Inr (snapshot, sd') \<Rightarrow>
             let datasetEntries = stepwise_window opts snapshot;
                 currentIndex = stepwise_currentIndex previousRunRowNumber previousRunRowsLeft;
                 effectiveTotal = stepwise_effectiveTotal opts datasetEntries
             in if currentIndex \<ge> effectiveTotal
                then \<lparr>result = Inl RowsExhausted, static = sd', requests = sent\<rparr>
                else if currentIndex < 0
                then \<lparr>result = Inl TransportFailure, static = sd', requests = sent\<rparr>
                else \<lparr>result =
                        Inr (row_output (datasetEntries ! nat currentIndex) currentIndex
                               effectiveTotal),
                      static = sd', requests = sent\<rparr>)"


section \<open>The window as the specification words it\<close>

text \<open>The Working Set of the specification (section 4.3, steps 1 to 4): the rows at the
  snapshot positions of the half-open interval from \<open>max 0 startRow\<close> to the end index,
  the snapshot length when \<^verbatim>\<open>endRow\<close> is undefined or the sentinel \<open>-1\<close> and
  \<open>min (endRow + 1) length\<close> otherwise; then, for a step above 1, the rows whose position
  in that sequence is a multiple of the step.\<close>

definition spec_window :: "ProcessingOptions \<Rightarrow> row list \<Rightarrow> row list" where
  "spec_window opts snapshot =
     (let len = int (length snapshot);
          first = max 0 (case startRow opts of None \<Rightarrow> 0 | Some v \<Rightarrow> v);
          endIndex =
            (case endRow opts of
               None \<Rightarrow> len
             | Some e \<Rightarrow> if e = - 1 then len else min (e + 1) len);
          sliced = map (\<lambda>p. snapshot ! p) [nat first ..< nat endIndex];
          step = (case stepSize opts of None \<Rightarrow> 1 | Some v \<Rightarrow> v)
      in if step > 1
         then map (\<lambda>position. sliced ! position)
                (filter (\<lambda>position. int position mod step = 0) [0 ..< length sliced])
         else sliced)"



section \<open>Random draws and sample inputs\<close>

text \<open>\<^verbatim>\<open>Math.random\<close> returns a double in \<open>[0, 1)\<close>: the condition on the stream of
  draws an invocation reads.\<close>

definition unit_draws :: "(nat \<Rightarrow> rat) \<Rightarrow> bool" where
  "unit_draws ambient = (\<forall>n. is_double (ambient n) \<and> 0 \<le> ambient n \<and> ambient n < 1)"

text \<open>Rows, options and static data for the concrete scenarios below: rows of dataset
  \<^verbatim>\<open>ds1\<close>, a parameter collection with no option added, and the static data of a
  node that never ran.\<close>

definition example_row :: "string \<Rightarrow> row" where
  "example_row name =
     \<lparr>r_id = name, r_datasetId = ''ds1'', r_projectId = ''p1'', r_entry = name,
      r_createdAt = ''t0'', r_updatedAt = ''t0''\<rparr>"

definition three_rows :: "row list" where
  "three_rows = map example_row [''r0'', ''r1'', ''r2'']"

definition five_rows :: "row list" where
  "five_rows = map example_row [''r0'', ''r1'', ''r2'', ''r3'', ''r4'']"

definition ten_rows :: "row list" where
  "ten_rows = map example_row
     [''r0'', ''r1'', ''r2'', ''r3'', ''r4'', ''r5'', ''r6'', ''r7'', ''r8'', ''r9'']"

definition no_options :: ProcessingOptions where
  "no_options =
     \<lparr>limitRows = None, maxRows = None, startRow = None, endRow = None, stepSize = None,
      shuffleRows = None, resetProgress = None, shuffleSeed = None\<rparr>"

definition empty_static :: staticData where
  "empty_static =
     \<lparr>s_processedDataset = None, s_datasetId = None, s_shuffleRows = None,
      s_shuffleSeed = None, s_cursor = None\<rparr>"

text \<open>The scenario's options as its user sets them (no seed, no reset), the same with
  the seed written out, with a reset, and with a limit of four rows; the remote service
  holding the five rows of \<^verbatim>\<open>ds1\<close>; the static data after two emissions.\<close>

definition scenario_options :: ProcessingOptions where
  "scenario_options =
     \<lparr>limitRows = Some False, maxRows = None, startRow = Some 0, endRow = None,
      stepSize = Some 1, shuffleRows = Some False, resetProgress = None, shuffleSeed = None\<rparr>"

definition ds1_service :: "string \<Rightarrow> response" where
  "ds1_service dsId = (if dsId = ''ds1'' then Body (Rows five_rows) else Body Missing)"

definition cached_static :: staticData where
  "cached_static =
     \<lparr>s_processedDataset = Some five_rows, s_datasetId = Some ''ds1'',
      s_shuffleRows = Some False, s_shuffleSeed = Some 0, s_cursor = Some 2\<rparr>"

definition seed0_options :: ProcessingOptions where
  "seed0_options = scenario_options\<lparr>shuffleSeed := Some 0\<rparr>"

definition forty_rows :: "row list" where
  "forty_rows = replicate 40 (example_row ''r0'')"

definition reset_options :: ProcessingOptions where
  "reset_options = seed0_options\<lparr>resetProgress := Some True\<rparr>"

definition limit4_options :: ProcessingOptions where
  "limit4_options = seed0_options\<lparr>limitRows := Some True, maxRows := Some 4\<rparr>"

text \<open>The scenario's options with a start past the five rows, and what an invocation
  leaves behind: its emission or error, the persisted cursor and the requests it sent.\<close>

definition beyond_options :: ProcessingOptions where
  "beyond_options = scenario_options\<lparr>startRow := Some 5\<rparr>"

definition observed :: "outcome \<Rightarrow> (error + int \<times> int) \<times> int option \<times> string list" where
  "observed out =
     (case result out of Inl e \<Rightarrow> Inl e | Inr item \<Rightarrow> Inr (row_number item, rowsLeft item),
      s_cursor (static out), requests out)"

text \<open>The window of property P4, and a limit of two rows.\<close>

definition window_options :: ProcessingOptions where
  "window_options = no_options\<lparr>startRow := Some 2, endRow := Some 7, stepSize := Some 2\<rparr>"


text \<open>What an invocation shows of itself: the error, or \<^verbatim>\<open>row_number\<close> and
  \<^verbatim>\<open>_rowsLeft\<close> of the emitted item.\<close>

definition emitted :: "outcome \<Rightarrow> error + int \<times> int" where
  "emitted out =
     (case result out of Inl e \<Rightarrow> Inl e | Inr item \<Rightarrow> Inr (row_number item, rowsLeft item))"


section \<open>Rounding to double precision\<close>

lemma rne_error: "\<bar>of_int (rne q) - q\<bar> \<le> 1 / 2"
proof -
  have "of_int \<lfloor>q\<rfloor> \<le> q" "q < of_int \<lfloor>q\<rfloor> + 1" by linarith+
  then show ?thesis
    by (auto simp: rne_def Let_def)
qed

lemma binade_bounds:
  assumes "0 < x"
  shows "2 powi binade x \<le> x" and "x < 2 powi (binade x + 1)"
proof -
  obtain a b where q: "quotient_of x = (a, b)" by (cases "quotient_of x")
  then have b: "0 < b" and x: "x = of_int a / of_int b"
    using quotient_of_denom_pos quotient_of_div by blast+
  from assms x b have a: "0 < a"
    by (simp add: zero_less_divide_iff)
  define la lb where "la = bitlen a" and "lb = bitlen b"
  have la: "(2::int) ^ nat (la - 1) \<le> a" "a < 2 ^ nat la"
    using bitlen_bounds [OF a] by (simp_all add: la_def)
  have lb: "(2::int) ^ nat (lb - 1) \<le> b" "b < 2 ^ nat lb"
    using bitlen_bounds [OF b] by (simp_all add: lb_def)
  have la1: "1 \<le> la" using a by (simp add: la_def bitlen_alt_def)
  have lb1: "1 \<le> lb" using b by (simp add: lb_def bitlen_alt_def)
  have ra: "(2::rat) powi (la - 1) \<le> of_int a" "of_int a < (2::rat) powi la"
  proof -
    have "(of_int ((2::int) ^ nat (la - 1)) :: rat) \<le> of_int a"
      using la(1) of_int_le_iff by blast
    then show "(2::rat) powi (la - 1) \<le> of_int a"
      using la1 by (simp add: power_int_def)
    have "(of_int a :: rat) < of_int ((2::int) ^ nat la)"
      using la(2) of_int_less_iff by blast
    then show "of_int a < (2::rat) powi la"
      using la1 by (simp add: power_int_def)
  qed
  have rb: "(2::rat) powi (lb - 1) \<le> of_int b" "of_int b < (2::rat) powi lb"
  proof -
    have "(of_int ((2::int) ^ nat (lb - 1)) :: rat) \<le> of_int b"
      using lb(1) of_int_le_iff by blast
    then show "(2::rat) powi (lb - 1) \<le> of_int b"
      using lb1 by (simp add: power_int_def)
    have "(of_int b :: rat) < of_int ((2::int) ^ nat lb)"
      using lb(2) of_int_less_iff by blast
    then show "of_int b < (2::rat) powi lb"
      using lb1 by (simp add: power_int_def)
  qed
  have bpos: "(0::rat) < of_int b" using b by simp
  have low: "(2::rat) powi (la - lb - 1) \<le> x"
  proof -
    have "(2::rat) powi (la - lb - 1) * of_int b \<le> 2 powi (la - lb - 1) * 2 powi lb"
      using rb(2) by (intro mult_left_mono) auto
    also have "\<dots> = 2 powi (la - 1)"
      by (simp flip: power_int_add)
    also have "\<dots> \<le> of_int a" by (rule ra(1))
    finally show ?thesis
      using bpos by (simp add: x pos_le_divide_eq)
  qed
  have up: "x < (2::rat) powi (la - lb + 1)"
  proof -
    have "of_int a < (2::rat) powi la" by (rule ra(2))
    also have "\<dots> = 2 powi (la - lb + 1) * 2 powi (lb - 1)"
      by (simp flip: power_int_add)
    also have "\<dots> \<le> 2 powi (la - lb + 1) * of_int b"
      using rb(1) by (intro mult_left_mono) auto
    finally show ?thesis
      using bpos by (simp add: x pos_divide_less_eq)
  qed
  have bd: "binade x = (if 2 powi (la - lb) \<le> x then la - lb else la - lb - 1)"
    by (simp add: binade_def q la_def lb_def Let_def)
  show "2 powi binade x \<le> x"
    using low by (simp add: bd)
  show "x < 2 powi (binade x + 1)"
    using up by (auto simp add: bd not_le)
qed

lemma fl_error:
  assumes "0 < x"
  shows "\<bar>fl x - x\<bar> \<le> x / 2 ^ 53"
proof -
  define u :: rat where "u = 2 powi (binade x - 52)"
  have upos: "0 < u" by (simp add: u_def)
  have flx: "fl x = of_int (rne (x / u)) * u"
    using assms by (simp add: fl_def u_def Let_def)
  have "fl x - x = (of_int (rne (x / u)) - x / u) * u"
    using upos by (simp add: flx left_diff_distrib)
  then have "\<bar>fl x - x\<bar> = \<bar>of_int (rne (x / u)) - x / u\<bar> * u"
    using upos by (simp add: abs_mult)
  also have "\<dots> \<le> (1 / 2) * u"
    using rne_error [of "x / u"] upos by (intro mult_right_mono) auto
  also have "\<dots> = 2 powi binade x / 2 ^ 53"
    by (simp add: u_def power_int_diff)
  also have "\<dots> \<le> x / 2 ^ 53"
    using binade_bounds(1) [OF assms] by (simp add: divide_right_mono)
  finally show ?thesis .
qed

lemma fl_nonneg: "0 \<le> x \<Longrightarrow> 0 \<le> fl x"
proof (cases "x = 0")
  case True then show ?thesis by (simp add: fl_def)
next
  case False
  assume "0 \<le> x"
  with False have "0 < x" by simp
  from fl_error [OF this] have "x - x / 2 ^ 53 \<le> fl x" by linarith
  moreover have "x / 2 ^ 53 \<le> x" using \<open>0 < x\<close>
    by (simp add: divide_le_eq)
  ultimately show ?thesis using \<open>0 < x\<close> by linarith
qed

lemma double_below_one:
  assumes "is_double d" and "0 \<le> d" and "d < 1"
  shows "d \<le> 1 - 1 / 2 ^ 53"
proof (cases "d \<le> 1 / 2")
  case True
  then show ?thesis by simp
next
  case False
  then have half: "1 / 2 < d" by simp
  then have pos: "0 < d" by simp
  have e_low: "binade d < 0"
  proof (rule ccontr)
    assume "\<not> binade d < 0"
    then have "(2::rat) powi 0 \<le> 2 powi binade d"
      by (intro power_int_increasing) auto
    with binade_bounds(1) [OF pos] assms(3) show False by simp
  qed
  have e_up: "- 2 < binade d"
  proof (rule ccontr)
    assume "\<not> - 2 < binade d"
    then have "(2::rat) powi (binade d + 1) \<le> 2 powi (- 1)"
      by (intro power_int_increasing) auto
    with binade_bounds(2) [OF pos] half show False by simp
  qed
  from e_low e_up have e: "binade d = - 1" by simp
  define m where "m = rne (d * 2 ^ 53)"
  have u: "(2::rat) powi (- 53) = 1 / 2 ^ 53"
    by (simp add: power_int_def divide_simps)
  have "fl d = of_int m / 2 ^ 53"
    using pos by (simp add: fl_def e u m_def Let_def)
  with assms(1) have d: "d = of_int m / 2 ^ 53"
    by (simp add: is_double_def)
  with assms(3) have "(of_int m :: rat) < 2 ^ 53"
    by (simp add: divide_simps)
  then have "(of_int m :: rat) < of_int (2 ^ 53)" by simp
  then have "m < 2 ^ 53" by (simp only: of_int_less_iff)
  then have "m \<le> 2 ^ 53 - 1" by simp
  then have "(of_int m :: rat) \<le> of_int (2 ^ 53 - 1)" by (simp only: of_int_le_iff)
  then have "(of_int m :: rat) \<le> 2 ^ 53 - 1" by simp
  then show ?thesis
    by (simp add: d divide_simps)
qed

lemma fl_scaled_below:
  assumes "0 \<le> d" and "d \<le> 1 - 1 / 2 ^ 53" and "0 < n"
  shows "fl (d * of_nat n) < of_nat n"
proof (cases "d = 0")
  case True
  with assms(3) show ?thesis by (simp add: fl_def)
next
  case False
  with assms(1) have dpos: "0 < d" by simp
  define x where "x = d * of_nat n"
  have xpos: "0 < x" using dpos assms(3) by (simp add: x_def)
  have npos: "(0::rat) < of_nat n" using assms(3) by simp
  have "fl x \<le> x + x / 2 ^ 53"
    using fl_error [OF xpos] by linarith
  also have "\<dots> = x * (1 + 1 / 2 ^ 53)"
    by (simp add: algebra_simps)
  also have "\<dots> \<le> ((1 - 1 / 2 ^ 53) * of_nat n) * (1 + 1 / 2 ^ 53)"
    unfolding x_def using assms(2) npos
    by (intro mult_right_mono) auto
  also have "\<dots> = of_nat n * ((1 - 1 / 2 ^ 53) * (1 + 1 / 2 ^ 53))"
    by (simp add: algebra_simps)
  also have "\<dots> < of_nat n * 1"
    using npos by (intro mult_strict_left_mono) auto
  finally show ?thesis by (simp add: x_def)
qed

lemma index_in_range:
  assumes "0 \<le> d" and "d \<le> 1 - 1 / 2 ^ 53" and "0 < n"
  shows "nat (Math_floor (fl (d * of_nat n))) < n"
proof -
  have "fl (d * of_nat n) < of_nat n"
    by (rule fl_scaled_below [OF assms])
  then have "fl (d * of_nat n) < of_int (int n)" by simp
  then have "\<lfloor>fl (d * of_nat n)\<rfloor> < int n"
    by (simp only: floor_less_iff)
  with assms(3) have "nat \<lfloor>fl (d * of_nat n)\<rfloor> < n" by linarith
  then show ?thesis by (simp add: Math_floor_def)
qed

lemma seeded_draw_bounds:
  assumes "0 \<le> k" and "k < 1000000"
  shows "0 \<le> fl (of_int k / 1000000)" and "fl (of_int k / 1000000) \<le> 1 - 1 / 2 ^ 53"
proof -
  show "0 \<le> fl (of_int k / 1000000)"
    using assms(1) by (intro fl_nonneg) simp
  show "fl (of_int k / 1000000) \<le> 1 - 1 / 2 ^ 53"
  proof (cases "k = 0")
    case True
    then show ?thesis by (simp add: fl_def)
  next
    case False
    define x :: rat where "x = of_int k / 1000000"
    have xpos: "0 < x" using False assms(1) by (simp add: x_def)
    have "k \<le> 999999" using assms by simp
    then have "(of_int k :: rat) \<le> of_int 999999" by (simp only: of_int_le_iff)
    then have xle: "x \<le> 999999 / 1000000" by (simp add: x_def)
    have "fl x \<le> x + x / 2 ^ 53"
      using fl_error [OF xpos] by linarith
    also have "\<dots> = x * (1 + 1 / 2 ^ 53)"
      by (simp add: algebra_simps)
    also have "\<dots> \<le> (999999 / 1000000) * (1 + 1 / 2 ^ 53)"
      using xle by (intro mult_right_mono) auto
    also have "\<dots> \<le> 1 - 1 / 2 ^ 53" by simp
    finally show ?thesis by (simp add: x_def)
  qed
qed

lemma row_random_bounds:
  assumes "unit_draws ambient" and "row_random ambient g = (r, g')"
  shows "0 \<le> r \<and> r \<le> 1 - 1 / 2 ^ 53"
proof (cases g)
  case (Ambient n)
  with assms(2) have "r = ambient n" by (simp add: row_random_def)
  with assms(1) double_below_one [of "ambient n"] show ?thesis
    by (simp add: unit_draws_def)
next
  case (Xorshift s)
  define s1 where "s1 = s XOR push_bit 13 s"
  define s2 where "s2 = s1 XOR drop_bit 17 s1"
  define s3 where "s3 = s2 XOR push_bit 5 s2"
  define k where "k = uint s3 mod 1000000"
  have "row_random ambient g = (fl (of_int k / 1000000), Xorshift s3)"
    by (simp add: row_random_def Xorshift Let_def k_def s3_def s2_def s1_def)
  with assms(2) have r: "r = fl (of_int k / 1000000)" by simp
  have "0 \<le> k" "k < 1000000" by (simp_all add: k_def)
  with seeded_draw_bounds [of k] show ?thesis by (simp add: r)
qed

lemma row_fisher_yates_props:
  assumes "unit_draws ambient"
  shows "i < length xs \<Longrightarrow>
         mset (row_fisher_yates ambient g i xs) = mset xs"
proof (induction i arbitrary: g xs)
  case 0
  then show ?case by simp
next
  case (Suc i)
  obtain r g' where rg: "row_random ambient g = (r, g')"
    by (cases "row_random ambient g")
  define j where "j = nat (Math_floor (fl (r * of_nat (Suc i + 1))))"
  have "j < Suc i + 1"
    unfolding j_def using row_random_bounds [OF assms rg]
    by (intro index_in_range) auto
  with Suc.prems have j: "j < length xs" by simp
  let ?ys = "xs[Suc i := xs ! j, j := xs ! Suc i]"
  have "mset ?ys = mset xs"
    using mset_swap [OF j Suc.prems] by simp
  moreover have "i < length ?ys" using Suc.prems by simp
  ultimately have "mset (row_fisher_yates ambient g' i ?ys) = mset xs"
    using Suc.IH [of ?ys g'] by simp
  then show ?case
    by (simp add: rg j_def Let_def)
qed

lemma row_shuffle_mset:
  assumes "unit_draws ambient"
  shows "mset (row_shuffle ambient seed xs) = mset xs"
proof (cases xs)
  case Nil
  then show ?thesis by (simp add: row_shuffle_def Let_def)
next
  case (Cons a as)
  then have "length xs - 1 < length xs" by simp
  then show ?thesis
    unfolding row_shuffle_def Let_def
    by (rule row_fisher_yates_props [OF assms])
qed

lemma batch_random_eq: "batch_random = row_random"
  by (intro ext) (simp add: batch_random_def row_random_def)

lemma batch_fisher_yates_eq:
  "batch_fisher_yates ambient g i xs = row_fisher_yates ambient g i xs"
  by (induction i arbitrary: g xs) (simp_all add: batch_random_eq)

lemma batch_shuffle_eq: "batch_shuffle ambient seed xs = row_shuffle ambient seed xs"
  by (simp add: batch_shuffle_def row_shuffle_def batch_fisher_yates_eq)

lemma seeded_fisher_yates_ambient:
  "row_fisher_yates ambient (Xorshift s) i xs = row_fisher_yates ambient' (Xorshift s) i xs"
  by (induction i arbitrary: s xs) (simp_all add: row_random_def Let_def)


section \<open>The shuffle\<close>

lemma half_is_double: "is_double (1 / 2)"
  unfolding is_double_def by code_simp

lemma unit_draws_half: "unit_draws (\<lambda>_. 1 / 2)"
  by (simp add: unit_draws_def half_is_double)

lemma unit_draws_zero: "unit_draws (\<lambda>_. 0)"
  by (simp add: unit_draws_def is_double_def fl_def)

lemma seeded_shuffle_ambient:
  assumes "v \<noteq> 0"
  shows "row_shuffle ambient (Some v) xs = row_shuffle ambient' (Some v) xs"
  using assms
  by (simp add: row_shuffle_def seeded_fisher_yates_ambient [of ambient _ _ _ ambient'])

text \<open>
  Claim C10.  Whatever the random source (the xorshift generator for any seed, or any
  stream of \<^verbatim>\<open>Math.random\<close> draws, doubles in \<open>[0, 1)\<close>), the Fisher--Yates loop of
  the row trigger and of the batch trigger returns a permutation of its input: the same
  length and the same multiset of rows, none lost and none duplicated.
\<close>

theorem shuffle_is_permutation:
  assumes "(case seed of None \<Rightarrow> False | Some v \<Rightarrow> v \<noteq> 0) \<or> unit_draws ambient"
  shows "mset (row_shuffle ambient seed xs) = mset xs \<and>
         length (row_shuffle ambient seed xs) = length xs \<and>
         mset (batch_shuffle ambient seed xs) = mset xs \<and>
         length (batch_shuffle ambient seed xs) = length xs"
proof -
  have m: "mset (row_shuffle ambient seed xs) = mset xs"
  proof (cases "unit_draws ambient")
    case True
    then show ?thesis by (rule row_shuffle_mset)
  next
    case False
    with assms obtain v where v: "seed = Some v" "v \<noteq> 0"
      by (auto split: option.splits)
    then have "row_shuffle ambient seed xs = row_shuffle (\<lambda>_. 0) seed xs"
      by (simp add: seeded_shuffle_ambient)
    then show ?thesis by (simp add: row_shuffle_mset [OF unit_draws_zero])
  qed
  then have "length (row_shuffle ambient seed xs) = length xs"
    by (rule mset_eq_length)
  with m show ?thesis by (simp add: batch_shuffle_eq)
qed

theorem shuffle_is_permutation_witness:
  "unit_draws (\<lambda>_. 1 / 2) \<and>
   mset (row_shuffle (\<lambda>_. 1 / 2) None five_rows) = mset five_rows \<and>
   length (row_shuffle (\<lambda>_. 1 / 2) None five_rows) = length five_rows \<and>
   (42::int) \<noteq> 0 \<and>
   mset (batch_shuffle (\<lambda>_. 7) (Some 42) five_rows) = mset five_rows \<and>
   length (batch_shuffle (\<lambda>_. 7) (Some 42) five_rows) = length five_rows"
  using shuffle_is_permutation [of None "\<lambda>_. 1 / 2" five_rows]
    shuffle_is_permutation [of "Some 42" "\<lambda>_. 7" five_rows] unit_draws_half
  by simp

lemma unseeded_shuffle_example:
  "map r_id (row_shuffle (\<lambda>_. 1 / 2) None five_rows) = [''r0'', ''r3'', ''r1'', ''r4'', ''r2'']"
  by code_simp

lemma seeded_shuffle_example:
  "map r_id (row_shuffle (\<lambda>_. 0) (Some 42) three_rows) = [''r2'', ''r0'', ''r1'']"
  by code_simp

text \<open>
  Claim C3.  For a seed other than 0 the shuffle is a function of the seed and the input
  alone: it reads nothing of \<^verbatim>\<open>Math.random\<close>, so every run gives the same permutation,
  and the shuffle of the batch trigger gives the same permutation as the shuffle of the
  row trigger.
\<close>

theorem seeded_shuffle_deterministic:
  assumes "seed \<noteq> 0"
  shows "row_shuffle ambient (Some seed) xs = row_shuffle ambient' (Some seed) xs \<and>
         batch_shuffle ambient' (Some seed) xs = row_shuffle ambient (Some seed) xs"
  using assms
  by (simp add: batch_shuffle_eq seeded_shuffle_ambient [of seed ambient xs ambient'])

theorem seeded_shuffle_deterministic_witness:
  "(42::int) \<noteq> 0 \<and>
   row_shuffle (\<lambda>_. 0) (Some 42) three_rows = row_shuffle (\<lambda>_. 1 / 2) (Some 42) three_rows \<and>
   batch_shuffle (\<lambda>_. 1 / 2) (Some 42) three_rows = row_shuffle (\<lambda>_. 0) (Some 42) three_rows"
  using seeded_shuffle_deterministic [of 42 "\<lambda>_. 0" three_rows "\<lambda>_. 1 / 2"]
  by simp


section \<open>The row trigger: reload, emission and cursor\<close>

lemma emit_exhausted:
  assumes "row_effectiveTotal opts (row_window opts snapshot)
             \<le> row_currentIndex sd"
  shows "emit opts snapshot sd = (Inl RowsExhausted, sd)"
  using assms by (simp add: emit_def Let_def)

lemma emit_row:
  assumes "row_currentIndex sd
             < row_effectiveTotal opts (row_window opts snapshot)"
  shows "emit opts snapshot sd =
           (Inr (row_output
                   (row_window opts snapshot ! nat (row_currentIndex sd))
                   (row_currentIndex sd)
                   (row_effectiveTotal opts (row_window opts snapshot))),
            sd\<lparr>s_cursor := Some (row_currentIndex sd + 1)\<rparr>)"
  using assms by (simp add: emit_def Let_def)

lemma emit_cases:
  obtains (exhausted) "emit opts snapshot sd = (Inl RowsExhausted, sd)"
  | (row) item where "emit opts snapshot sd =
        (Inr item, sd\<lparr>s_cursor := Some (row_number item + 1)\<rparr>)"
      and "row_number item = row_currentIndex sd"
proof (cases "row_effectiveTotal opts (row_window opts snapshot)
             \<le> row_currentIndex sd")
  case True
  then show ?thesis using exhausted emit_exhausted by blast
next
  case False
  then have "row_currentIndex sd
             < row_effectiveTotal opts (row_window opts snapshot)" by simp
  note lt = this
  let ?item = "row_output (row_window opts snapshot ! nat (row_currentIndex sd))
                 (row_currentIndex sd) (row_effectiveTotal opts (row_window opts snapshot))"
  have rn: "row_number ?item = row_currentIndex sd"
    by (simp add: row_output_def Let_def)
  show ?thesis
    by (rule row [of ?item]) (simp_all add: emit_row [OF lt] rn)
qed

lemma reload_cases:
  obtains (failed) e where "reload fetch ambient dsId opts sd = Inl e"
      and "fetch dsId = Failed \<or> fetch dsId = Body Missing \<or> fetch dsId = Body NotArray
             \<or> fetch dsId = Body (Rows [])"
      and "e = (if fetch dsId = Failed then TransportFailure else CollectionEmpty)"
  | (loaded) fetched snapshot sd' where "fetch dsId = Body (Rows fetched)" and "fetched \<noteq> []"
      and "reload fetch ambient dsId opts sd = Inr (snapshot, sd')"
      and "snapshot = (if shuffleRows opts = Some True
                       then row_shuffle ambient (shuffleSeed opts) fetched else fetched)"
      and "sd' = sd\<lparr>s_processedDataset := Some snapshot,
                     s_datasetId := Some dsId,
                     s_shuffleRows := Some (shuffleRows opts = Some True),
                     s_shuffleSeed := Some (case shuffleSeed opts of None \<Rightarrow> 0 | Some v \<Rightarrow> v),
                     s_cursor := Some 0\<rparr>"
proof (cases "fetch dsId")
  case Failed
  then show ?thesis by (intro failed [of TransportFailure]) (simp_all add: reload_def)
next
  case (Body p)
  show ?thesis
  proof (cases p)
    case Missing
    with Body show ?thesis by (intro failed [of CollectionEmpty]) (simp_all add: reload_def)
  next
    case NotArray
    with Body show ?thesis by (intro failed [of CollectionEmpty]) (simp_all add: reload_def)
  next
    case (Rows fetched)
    show ?thesis
    proof (cases "fetched = []")
      case True
      with Body Rows show ?thesis
        by (intro failed [of CollectionEmpty]) (simp_all add: reload_def)
    next
      case False
      have b: "(case shuffleRows opts of None \<Rightarrow> False | Some b \<Rightarrow> b) = (shuffleRows opts = Some True)"
        by (simp split: option.splits)
      define snapshot where "snapshot = (if shuffleRows opts = Some True
                       then row_shuffle ambient (shuffleSeed opts) fetched else fetched)"
      define sd' where "sd' = sd\<lparr>s_processedDataset := Some snapshot,
                     s_datasetId := Some dsId,
                     s_shuffleRows := Some (shuffleRows opts = Some True),
                     s_shuffleSeed := Some (case shuffleSeed opts of None \<Rightarrow> 0 | Some v \<Rightarrow> v),
                     s_cursor := Some 0\<rparr>"
      have "reload fetch ambient dsId opts sd = Inr (snapshot, sd')"
        using False Body Rows by (simp add: reload_def Let_def b snapshot_def sd'_def)
      with False Body Rows show ?thesis
        by (intro loaded [of fetched snapshot sd']) (simp_all add: snapshot_def sd'_def)
    qed
  qed
qed

text \<open>
  Claim C6.  When the invocation reloads and the request fails, or its answer has no
  \<^verbatim>\<open>data\<close>, a \<^verbatim>\<open>data\<close> that is no array, or an empty array, the invocation fails
  with the transport error, respectively with \<open>CollectionEmpty\<close>, and the static data
  (recorded key, cached snapshot, cursor) are exactly what they were.
\<close>

theorem failed_reload_keeps_state:
  assumes "needsReload dsId opts sd"
    and "fetch dsId = Failed \<or> fetch dsId = Body Missing \<or> fetch dsId = Body NotArray
           \<or> fetch dsId = Body (Rows [])"
  shows "result (execute fetch ambient dsId opts sd) =
           Inl (if fetch dsId = Failed then TransportFailure else CollectionEmpty) \<and>
         static (execute fetch ambient dsId opts sd) = sd"
proof (cases rule: reload_cases [of fetch ambient dsId opts sd])
  case (failed e)
  with assms(1) show ?thesis by (simp add: execute_def)
next
  case (loaded fetched snapshot sd')
  with assms(2) show ?thesis by auto
qed

theorem failed_reload_keeps_state_witness:
  "needsReload ''ds1'' no_options empty_static \<and>
   result (execute (\<lambda>_. Body (Rows [])) (\<lambda>_. 0) ''ds1'' no_options empty_static) = Inl CollectionEmpty \<and>
   static (execute (\<lambda>_. Body (Rows [])) (\<lambda>_. 0) ''ds1'' no_options empty_static) = empty_static \<and>
   needsReload ''ds1'' reset_options cached_static \<and>
   result (execute (\<lambda>_. Failed) (\<lambda>_. 0) ''ds1'' reset_options cached_static) = Inl TransportFailure \<and>
   static (execute (\<lambda>_. Failed) (\<lambda>_. 0) ''ds1'' reset_options cached_static) = cached_static \<and>
   result (execute (\<lambda>_. Body (Rows [])) (\<lambda>_. 0) ''ds1'' reset_options cached_static) = Inl CollectionEmpty \<and>
   static (execute (\<lambda>_. Body (Rows [])) (\<lambda>_. 0) ''ds1'' reset_options cached_static) = cached_static \<and>
   s_cursor cached_static = Some 2 \<and> s_processedDataset cached_static = Some five_rows"
proof -
  have h: "needsReload ''ds1'' no_options empty_static"
    by (simp add: needsReload_def empty_static_def)
  have k: "needsReload ''ds1'' reset_options cached_static"
    by (simp add: needsReload_def reset_options_def seed0_options_def scenario_options_def)
  have c: "s_cursor cached_static = Some 2" "s_processedDataset cached_static = Some five_rows"
    by (simp_all add: cached_static_def)
  show ?thesis
    using h k c
      failed_reload_keeps_state [OF h, of "\<lambda>_. Body (Rows [])" "\<lambda>_. 0"]
      failed_reload_keeps_state [OF k, of "\<lambda>_. Failed" "\<lambda>_. 0"]
      failed_reload_keeps_state [OF k, of "\<lambda>_. Body (Rows [])" "\<lambda>_. 0"]
    by simp
qed

lemma execute_cached:
  assumes "\<not> needsReload dsId opts sd" and "s_processedDataset sd = Some snapshot"
  shows "execute fetch ambient dsId opts sd =
           \<lparr>result = fst (emit opts snapshot sd), static = snd (emit opts snapshot sd),
            requests = []\<rparr>"
  using assms by (simp add: execute_def split: prod.splits)

lemma execute_reloaded:
  assumes "needsReload dsId opts sd"
    and "reload fetch ambient dsId opts sd = Inr (snapshot, sd')"
  shows "execute fetch ambient dsId opts sd =
           \<lparr>result = fst (emit opts snapshot sd'), static = snd (emit opts snapshot sd'),
            requests = [dsId]\<rparr>"
  using assms by (simp add: execute_def split: prod.splits)

lemma needsReload_iff:
  "needsReload dsId opts sd \<longleftrightarrow>
     resetProgress opts = Some True \<or> s_processedDataset sd = None \<or>
     s_datasetId sd \<noteq> Some dsId \<or> s_shuffleRows sd \<noteq> Some (shuffleRows opts = Some True) \<or>
     s_shuffleSeed sd \<noteq> shuffleSeed opts"
proof -
  have "(case shuffleRows opts of None \<Rightarrow> False | Some b \<Rightarrow> b) = (shuffleRows opts = Some True)"
    by (simp split: option.splits)
  then show ?thesis by (simp add: needsReload_def)
qed

lemma row_currentIndex_ge: "(case s_cursor sd of None \<Rightarrow> 0 | Some c \<Rightarrow> c) \<le> row_currentIndex sd"
  by (simp add: row_currentIndex_def Math_max_def split: option.splits)

lemma row_currentIndex_reset [simp]: "row_currentIndex (sd\<lparr>s_cursor := Some 0\<rparr>) = 0"
  by (simp add: row_currentIndex_def Math_max_def)

text \<open>
  One invocation, by the reload decision the code takes.  Every successful emission
  leaves the cursor at \<^verbatim>\<open>row_number + 1\<close>.  An invocation that does not reload sends
  no request, keeps the cached snapshot, emits the row at the cursor it read, never
  lowers the cursor, and changes nothing when it fails.  An invocation that reloads and
  receives rows replaces the snapshot by the fetched rows (shuffled when shuffling is on)
  and restarts the cursor at 0: it ends at 0 with \<open>RowsExhausted\<close>, or at 1 after
  emitting row 0.  Which invocations reload is another matter: see
  \<open>reload_without_seed_repeats\<close> below.
\<close>

lemma cursor_step_facts:
  "(let out = execute fetch ambient dsId opts sd in
      (\<forall>item. result out = Inr item \<longrightarrow> s_cursor (static out) = Some (row_number item + 1)) \<and>
      (\<not> needsReload dsId opts sd \<longrightarrow>
         requests out = [] \<and>
         s_processedDataset (static out) = s_processedDataset sd \<and>
         (case s_cursor sd of None \<Rightarrow> 0 | Some c \<Rightarrow> c)
           \<le> (case s_cursor (static out) of None \<Rightarrow> 0 | Some c \<Rightarrow> c) \<and>
         (\<forall>item. result out = Inr item \<longrightarrow> row_number item = row_currentIndex sd) \<and>
         (\<forall>e. result out = Inl e \<longrightarrow> static out = sd)) \<and>
      ((resetProgress opts = Some True \<or> s_processedDataset sd = None \<or>
        s_datasetId sd \<noteq> Some dsId \<or>
        s_shuffleRows sd \<noteq> Some (shuffleRows opts = Some True) \<or>
        s_shuffleSeed sd \<noteq> shuffleSeed opts) \<and>
       fetch dsId = Body (Rows fetched) \<and> fetched \<noteq> [] \<longrightarrow>
         requests out = [dsId] \<and>
         s_processedDataset (static out) =
           Some (if shuffleRows opts = Some True
                 then row_shuffle ambient (shuffleSeed opts) fetched else fetched) \<and>
         (result out = Inl RowsExhausted \<and> s_cursor (static out) = Some 0 \<or>
          (\<exists>item. result out = Inr item \<and> row_number item = 0) \<and>
          s_cursor (static out) = Some 1)))"
proof -
  define out where "out = execute fetch ambient dsId opts sd"
  have emitting: "s_cursor (static out) = Some (row_number item + 1)"
    if "result out = Inr item" for item
  proof (cases "needsReload dsId opts sd")
    case False
    then obtain snapshot where sn: "s_processedDataset sd = Some snapshot"
      by (auto simp: needsReload_def)
    from that show ?thesis
      unfolding out_def execute_cached [OF False sn]
      by (cases rule: emit_cases [of opts snapshot sd]) auto
  next
    case True
    show ?thesis
    proof (cases rule: reload_cases [of fetch ambient dsId opts sd])
      case (failed e)
      with True that show ?thesis by (simp add: out_def execute_def)
    next
      case (loaded fetched' snapshot sd')
      from that show ?thesis
        unfolding out_def execute_reloaded [OF True loaded(3)]
        by (cases rule: emit_cases [of opts snapshot sd']) auto
    qed
  qed
  have cached: "requests out = [] \<and>
         s_processedDataset (static out) = s_processedDataset sd \<and>
         (case s_cursor sd of None \<Rightarrow> 0 | Some c \<Rightarrow> c)
           \<le> (case s_cursor (static out) of None \<Rightarrow> 0 | Some c \<Rightarrow> c) \<and>
         (\<forall>item. result out = Inr item \<longrightarrow> row_number item = row_currentIndex sd) \<and>
         (\<forall>e. result out = Inl e \<longrightarrow> static out = sd)"
    if nr: "\<not> needsReload dsId opts sd"
  proof -
    from nr obtain snapshot where sn: "s_processedDataset sd = Some snapshot"
      by (auto simp: needsReload_def)
    show ?thesis
      unfolding out_def execute_cached [OF nr sn]
      using row_currentIndex_ge [of sd]
      by (cases rule: emit_cases [of opts snapshot sd]) auto
  qed
  have fresh: "requests out = [dsId] \<and>
         s_processedDataset (static out) =
           Some (if shuffleRows opts = Some True
                 then row_shuffle ambient (shuffleSeed opts) fetched else fetched) \<and>
         (result out = Inl RowsExhausted \<and> s_cursor (static out) = Some 0 \<or>
          (\<exists>item. result out = Inr item \<and> row_number item = 0) \<and>
          s_cursor (static out) = Some 1)"
    if key: "resetProgress opts = Some True \<or> s_processedDataset sd = None \<or>
        s_datasetId sd \<noteq> Some dsId \<or>
        s_shuffleRows sd \<noteq> Some (shuffleRows opts = Some True) \<or>
        s_shuffleSeed sd \<noteq> shuffleSeed opts"
      and f: "fetch dsId = Body (Rows fetched)" "fetched \<noteq> []"
  proof -
    from key have nr: "needsReload dsId opts sd"
      by (auto simp: needsReload_iff)
    show ?thesis
    proof (cases rule: reload_cases [of fetch ambient dsId opts sd])
      case (failed e)
      with f show ?thesis by auto
    next
      case (loaded fetched' snapshot sd')
      with f have same: "fetched' = fetched" by simp
      have c0: "row_currentIndex sd' = 0" and ps: "s_processedDataset sd' = Some snapshot"
        by (simp_all add: loaded(5))
      show ?thesis
        unfolding out_def execute_reloaded [OF nr loaded(3)]
        using c0 ps loaded(4) same
        by (cases rule: emit_cases [of opts snapshot sd']) (auto simp: loaded(5))
    qed
  qed
  show ?thesis
    unfolding Let_def out_def [symmetric]
    using emitting cached fresh by blast
qed

lemma emit_keeps_key:
  "s_processedDataset (snd (emit opts snapshot sd)) = s_processedDataset sd \<and>
   s_datasetId (snd (emit opts snapshot sd)) = s_datasetId sd \<and>
   s_shuffleRows (snd (emit opts snapshot sd)) = s_shuffleRows sd \<and>
   s_shuffleSeed (snd (emit opts snapshot sd)) = s_shuffleSeed sd"
  by (cases rule: emit_cases [of opts snapshot sd]) auto

text \<open>The extent of the mismatch: without a seed option every invocation that loaded
  rows leaves a record that makes the next one reload; with a seed option, and no
  reset, it leaves a record the same options match.\<close>

lemma reload_without_seed_repeats:
  assumes "shuffleSeed opts = None"
    and "requests (execute fetch ambient dsId opts sd) = [dsId]"
    and "result (execute fetch ambient dsId opts sd) \<noteq> Inl CollectionEmpty"
    and "result (execute fetch ambient dsId opts sd) \<noteq> Inl TransportFailure"
  shows "needsReload dsId opts (static (execute fetch ambient dsId opts sd))"
proof -
  have nr: "needsReload dsId opts sd"
  proof (rule ccontr)
    assume n: "\<not> needsReload dsId opts sd"
    then obtain snapshot where "s_processedDataset sd = Some snapshot"
      by (auto simp: needsReload_def)
    from execute_cached [OF n this] assms(2) show False by simp
  qed
  show ?thesis
  proof (cases rule: reload_cases [of fetch ambient dsId opts sd])
    case (failed e)
    with nr assms(3,4) show ?thesis
      by (auto simp: execute_def split: if_splits)
  next
    case (loaded fetched snapshot sd')
    have "s_shuffleSeed sd' = Some 0"
      using assms(1) by (simp add: loaded(5))
    then have "s_shuffleSeed (static (execute fetch ambient dsId opts sd)) = Some 0"
      unfolding execute_reloaded [OF nr loaded(3)] using emit_keeps_key [of opts snapshot sd']
      by simp
    with assms(1) show ?thesis by (simp add: needsReload_def)
  qed
qed

lemma reload_with_seed_is_cached:
  assumes "shuffleSeed opts = Some s" and "resetProgress opts \<noteq> Some True"
    and "result (execute fetch ambient dsId opts sd) \<noteq> Inl CollectionEmpty"
    and "result (execute fetch ambient dsId opts sd) \<noteq> Inl TransportFailure"
  shows "\<not> needsReload dsId opts (static (execute fetch ambient dsId opts sd))"
proof (cases "needsReload dsId opts sd")
  case False
  then obtain snapshot where sn: "s_processedDataset sd = Some snapshot"
    by (auto simp: needsReload_def)
  from False show ?thesis
    unfolding execute_cached [OF False sn] needsReload_def
    using emit_keeps_key [of opts snapshot sd] by simp
next
  case True
  show ?thesis
  proof (cases rule: reload_cases [of fetch ambient dsId opts sd])
    case (failed e)
    with True assms(3,4) show ?thesis
      by (auto simp: execute_def split: if_splits)
  next
    case (loaded fetched snapshot sd')
    have "\<not> needsReload dsId opts sd'"
      using assms(1,2) by (simp add: loaded(5) needsReload_iff)
    then show ?thesis
      unfolding execute_reloaded [OF True loaded(3)] needsReload_def
      using emit_keeps_key [of opts snapshot sd'] by simp
  qed
qed

text \<open>
  Claim C1, at the input where the code departs from it.  Two consecutive invocations
  with the same dataset, the same options and no reset, the seed option not set: the
  second one sends a request again.  Line 134 records \<^verbatim>\<open>shuffleSeed || 0\<close>, line 93
  compares the record with the option as given, and \<^verbatim>\<open>0 !== undefined\<close>.
\<close>

theorem absent_seed_refetches:
  "resetProgress scenario_options \<noteq> Some True \<and>
   map requests
     (run (replicate 2 (ds1_service, \<lambda>_. 0, ''ds1'', scenario_options)) empty_static) =
     [[''ds1''], [''ds1'']]"
  by code_simp

text \<open>
  Claim C2, at the input where the code departs from it.  The scenario of five rows with
  \<^verbatim>\<open>startRow = 0\<close>, \<^verbatim>\<open>stepSize = 1\<close>, no limit and no shuffle, the seed option not
  set: each of six invocations reloads, emits row 0 with four rows left, and none fails.
\<close>

theorem scenario_without_seed_repeats_first_row:
  "map emitted
     (run (replicate 6 (ds1_service, \<lambda>_. 0, ''ds1'', scenario_options)) empty_static) =
     replicate 6 (Inr (0, 4))"
  by code_simp

text \<open>With the seed written out as 0 the record and the option agree, and the scenario
  runs as claim C2 describes it.\<close>

lemma scenario_with_seed_zero:
  "map emitted
     (run (replicate 6 (ds1_service, \<lambda>_. 0, ''ds1'', seed0_options)) empty_static) =
     [Inr (0, 4), Inr (1, 3), Inr (2, 2), Inr (3, 1), Inr (4, 0), Inl RowsExhausted]"
  by code_simp

text \<open>
  Claim C7, at the input where the code departs from it.  Three invocations on
  \<^verbatim>\<open>ds1\<close> with the same Reload Key (same dataset, no shuffle, the seed option not
  set) and no reset; the third only moves \<^verbatim>\<open>startRow\<close> past the rows.  Each one
  sends a request and puts the cursor back to 0: the second emission leaves the
  persisted cursor at 1, where it was, and the third invocation lowers it from 1 to 0.
\<close>

theorem same_key_cursor_reset:
  "resetProgress scenario_options \<noteq> Some True \<and>
   resetProgress beyond_options \<noteq> Some True \<and>
   shuffleRows beyond_options = shuffleRows scenario_options \<and>
   shuffleSeed beyond_options = shuffleSeed scenario_options \<and>
   map observed
     (run [(ds1_service, \<lambda>_. 0, ''ds1'', scenario_options),
           (ds1_service, \<lambda>_. 0, ''ds1'', scenario_options),
           (ds1_service, \<lambda>_. 0, ''ds1'', beyond_options)] empty_static) =
     [(Inr (0, 4), Some 1, [''ds1'']),
      (Inr (0, 4), Some 1, [''ds1'']),
      (Inl RowsExhausted, Some 0, [''ds1''])]"
  by code_simp

text \<open>With the seed written out as 0 the same three invocations keep the snapshot: one
  request, the cursor goes 1, 2 and stays at 2 when the moved window is exhausted.\<close>

lemma same_key_cursor_with_seed_zero:
  "map observed
     (run [(ds1_service, \<lambda>_. 0, ''ds1'', seed0_options),
           (ds1_service, \<lambda>_. 0, ''ds1'', seed0_options),
           (ds1_service, \<lambda>_. 0, ''ds1'', seed0_options\<lparr>startRow := Some 5\<rparr>)] empty_static) =
     [(Inr (0, 4), Some 1, [''ds1'']),
      (Inr (1, 3), Some 2, []),
      (Inl RowsExhausted, Some 2, [])]"
  by code_simp

lemma row_effectiveTotal_le: "row_effectiveTotal opts ws \<le> int (length ws)"
  by (simp add: row_effectiveTotal_def Math_min_def)

lemma quarter_percentages:
  "Math_round (fl (fl (1 / 4) * 100)) = 25"
  "Math_round (fl (fl (2 / 4) * 100)) = 50"
  "Math_round (fl (fl (3 / 4) * 100)) = 75"
  "Math_round (fl (fl (4 / 4) * 100)) = 100"
  by code_simp+

lemma four_total:
  assumes "0 \<le> c" and "c < 4"
  shows "percentage (progress (row_output r c 4)) = 25 * (c + 1) \<and>
         rowsLeft (row_output r c 4) = 3 - c"
proof -
  from assms have "c = 0 \<or> c = 1 \<or> c = 2 \<or> c = 3" by arith
  then show ?thesis
    using quarter_percentages
    by (auto simp: row_output_def Let_def Math_max_def)
qed

lemma fl_pos:
  assumes "0 < x"
  shows "0 < fl x"
proof -
  have "x / 2 ^ 53 < x" using assms by (simp add: divide_less_eq)
  with fl_error [OF assms] show ?thesis by linarith
qed

lemma percentage_near_exact:
  assumes "0 \<le> c" and "c < T"
  shows "\<bar>of_int (percentage (progress (row_output r c T)))
            - 100 * (of_int (c + 1) / of_int T :: rat)\<bar> \<le> 1 / 2 + 300 / 2 ^ 53"
    and "0 \<le> percentage (progress (row_output r c T))"
    and "percentage (progress (row_output r c T)) \<le> 100"
proof -
  define x :: rat where "x = of_int (c + 1) / of_int T"
  define q where "q = fl x"
  define p where "p = fl (q * 100)"
  define n where "n = Math_round p"
  have Tpos: "(0::rat) < of_int T" using assms by simp
  have xpos: "0 < x" using assms by (simp add: x_def)
  have "of_int (c + 1) \<le> (of_int T :: rat)" using assms by simp
  then have x1: "x \<le> 1" using Tpos by (simp add: x_def divide_le_eq)
  have qpos: "0 < q" unfolding q_def by (rule fl_pos [OF xpos])
  have qe: "\<bar>q - x\<bar> \<le> x / 9007199254740992"
    using fl_error [OF xpos] by (simp add: q_def)
  have "0 < q * 100" using qpos by simp
  from fl_error [OF this] have pe: "\<bar>p - q * 100\<bar> \<le> q * 100 / 9007199254740992"
    by (simp add: p_def)
  have qb: "x - x / 9007199254740992 \<le> q" "q \<le> x + x / 9007199254740992"
    using qe by linarith+
  have pb: "q * 100 - q * 100 / 9007199254740992 \<le> p"
    "p \<le> q * 100 + q * 100 / 9007199254740992"
    using pe by linarith+
  have q2: "q \<le> 2" using qb x1 xpos by linarith
  have "p - 100 * x \<le> 300 / 9007199254740992"
    using pb qb q2 x1 xpos by linarith
  moreover have "- (300 / 9007199254740992) \<le> p - 100 * x"
    using pb qb q2 x1 xpos qpos by linarith
  ultimately have px: "\<bar>p - 100 * x\<bar> \<le> 300 / 9007199254740992" by linarith
  have "of_int n \<le> p + 1 / 2" "p + 1 / 2 < of_int n + 1"
    unfolding n_def Math_round_def by linarith+
  with px have nx': "\<bar>of_int n - 100 * x\<bar> \<le> 1 / 2 + 300 / 9007199254740992" by linarith
  then have nx: "\<bar>of_int n - 100 * x\<bar> \<le> 1 / 2 + 300 / 2 ^ 53" by simp
  have pn: "percentage (progress (row_output r c T)) = n"
    by (simp add: row_output_def Let_def n_def p_def q_def x_def)
  show "\<bar>of_int (percentage (progress (row_output r c T)))
            - 100 * (of_int (c + 1) / of_int T :: rat)\<bar> \<le> 1 / 2 + 300 / 2 ^ 53"
    unfolding pn x_def [symmetric] by (rule nx)
  have "- 1 < (of_int n :: rat)" using nx' xpos by linarith
  then have "(of_int (- 1) :: rat) < of_int n" by simp
  then have "- 1 < n" by (simp only: of_int_less_iff)
  then show "0 \<le> percentage (progress (row_output r c T))" by (simp add: pn)
  have "(of_int n :: rat) < 101" using nx' x1 by linarith
  then have "(of_int n :: rat) < of_int 101" by simp
  then have "n < 101" by (simp only: of_int_less_iff)
  then show "percentage (progress (row_output r c T)) \<le> 100" by (simp add: pn)
qed

text \<open>
  Claim C5, amended.  With \<open>c\<close> the cursor read by the invocation and \<open>T\<close> the
  effective total, the emission fails with \<open>RowsExhausted\<close> exactly when \<open>T \<le> c\<close> and
  then changes nothing; otherwise it emits the row at position \<open>c\<close> of the working set
  with \<^verbatim>\<open>_rowsLeft\<close> \<open>max 0 (T - (c + 1))\<close>, progress \<open>c + 1\<close> of \<open>T\<close> with
  \<open>T - (c + 1)\<close> remaining, and moves the cursor to \<open>c + 1\<close>.  The percentage is
  \<^verbatim>\<open>Math.round\<close> of the double-precision product \<^verbatim>\<open>((c + 1) / T) * 100\<close>, an
  integer from 0 to 100 no further than \<open>1 / 2 + 300 / 2^53\<close> from \<open>100 (c + 1) / T\<close>.  An
  invocation on a cached snapshot is this emission.  For \<open>T = 4\<close> the percentages are
  25, 50, 75, 100 and the rows left 3, 2, 1, 0.
\<close>

theorem emission_step:
  "(let ws = row_window opts snapshot; T = row_effectiveTotal opts ws;
        c = row_currentIndex sd; out = emit opts snapshot sd
    in ((fst out = Inl RowsExhausted) = (T \<le> c)) \<and>
       (T \<le> c \<longrightarrow> snd out = sd) \<and>
       (c < T \<longrightarrow>
          (\<exists>item. out = (Inr item, sd\<lparr>s_cursor := Some (c + 1)\<rparr>) \<and>
             row_number item = c \<and> nat c < length ws \<and>
             row_id item = r_id (ws ! nat c) \<and> entry item = r_entry (ws ! nat c) \<and>
             rowsLeft item = max 0 (T - (c + 1)) \<and>
             progress item =
               \<lparr>current = c + 1, total = T,
                percentage = Math_round (fl (fl (of_int (c + 1) / of_int T) * 100)),
                remaining = T - (c + 1)\<rparr> \<and>
             0 \<le> percentage (progress item) \<and> percentage (progress item) \<le> 100 \<and>
             \<bar>of_int (percentage (progress item))
                - 100 * (of_int (c + 1) / of_int T :: rat)\<bar> \<le> 1 / 2 + 300 / 2 ^ 53))) \<and>
   (\<not> needsReload dsId opts sd \<and> s_processedDataset sd = Some snapshot \<longrightarrow>
      result (execute fetch ambient dsId opts sd) = fst (emit opts snapshot sd) \<and>
      static (execute fetch ambient dsId opts sd) = snd (emit opts snapshot sd)) \<and>
   (\<forall>r c. 0 \<le> c \<and> c < 4 \<longrightarrow>
      percentage (progress (row_output r c 4)) = 25 * (c + 1) \<and>
      rowsLeft (row_output r c 4) = 3 - c)"
proof -
  define ws where "ws = row_window opts snapshot"
  define T where "T = row_effectiveTotal opts ws"
  define c where "c = row_currentIndex sd"
  have c0: "0 \<le> c" by (simp add: c_def row_currentIndex_def Math_max_def)
  have TL: "T \<le> int (length ws)" unfolding T_def by (rule row_effectiveTotal_le)
  have A: "(fst (emit opts snapshot sd) = Inl RowsExhausted) = (T \<le> c)"
    by (simp add: emit_def Let_def T_def ws_def c_def)
  have B: "T \<le> c \<longrightarrow> snd (emit opts snapshot sd) = sd"
    by (simp add: emit_def Let_def T_def ws_def c_def)
  have C: "\<exists>item. emit opts snapshot sd = (Inr item, sd\<lparr>s_cursor := Some (c + 1)\<rparr>) \<and>
             row_number item = c \<and> nat c < length ws \<and>
             row_id item = r_id (ws ! nat c) \<and> entry item = r_entry (ws ! nat c) \<and>
             rowsLeft item = max 0 (T - (c + 1)) \<and>
             progress item =
               \<lparr>current = c + 1, total = T,
                percentage = Math_round (fl (fl (of_int (c + 1) / of_int T) * 100)),
                remaining = T - (c + 1)\<rparr> \<and>
             0 \<le> percentage (progress item) \<and> percentage (progress item) \<le> 100 \<and>
             \<bar>of_int (percentage (progress item))
                - 100 * (of_int (c + 1) / of_int T :: rat)\<bar> \<le> 1 / 2 + 300 / 2 ^ 53" if lt: "c < T"
  proof -
    have m: "max 0 (T - (c + 1)) = T - (c + 1)" using lt by simp
    have r: "nat c < length ws" using lt TL c0 by linarith
    have e: "emit opts snapshot sd =
              (Inr (row_output (ws ! nat c) c T), sd\<lparr>s_cursor := Some (c + 1)\<rparr>)"
      using lt by (simp add: emit_def Let_def T_def ws_def c_def)
    have f: "row_number (row_output (ws ! nat c) c T) = c \<and>
             row_id (row_output (ws ! nat c) c T) = r_id (ws ! nat c) \<and>
             entry (row_output (ws ! nat c) c T) = r_entry (ws ! nat c) \<and>
             rowsLeft (row_output (ws ! nat c) c T) = max 0 (T - (c + 1)) \<and>
             progress (row_output (ws ! nat c) c T) =
               \<lparr>current = c + 1, total = T,
                percentage = Math_round (fl (fl (of_int (c + 1) / of_int T) * 100)),
                remaining = T - (c + 1)\<rparr>"
      by (simp add: m row_output_def Let_def Math_max_def)
    show ?thesis
      using e r f percentage_near_exact [OF c0 lt, of "ws ! nat c"]
      by (intro exI [of _ "row_output (ws ! nat c) c T"]) blast
  qed
  have D: "\<not> needsReload dsId opts sd \<and> s_processedDataset sd = Some snapshot \<longrightarrow>
      result (execute fetch ambient dsId opts sd) = fst (emit opts snapshot sd) \<and>
      static (execute fetch ambient dsId opts sd) = snd (emit opts snapshot sd)"
    by (simp add: execute_cached)
  have E: "\<forall>r c. 0 \<le> c \<and> c < 4 \<longrightarrow>
      percentage (progress (row_output r c 4)) = 25 * (c + 1) \<and>
      rowsLeft (row_output r c 4) = 3 - c"
    using four_total by blast
  show ?thesis
    unfolding Let_def ws_def [symmetric] T_def [symmetric] c_def [symmetric]
    using A B C D E by blast
qed

text \<open>
  Claim C5 as stated gives the percentage as \<open>round (100 * (c + 1) / T)\<close>.  At
  \<open>c = 22\<close>, \<open>T = 40\<close> that is 58 (of 57.5), the code reports 57: the quotient 23 / 40
  rounds below 0.575 and the product to 57.49999999999999.
\<close>

theorem percentage_tie_counterexample:
  "map_sum id (\<lambda>item. percentage (progress item))
     (fst (emit no_options forty_rows (empty_static\<lparr>s_cursor := Some 22\<rparr>))) = Inr 57 \<and>
   round (100 * (22 + 1) / 40 :: rat) = 58"
  by code_simp

lemma limit4_total: "row_effectiveTotal limit4_options (row_window limit4_options five_rows) = 4"
  by code_simp

lemma cached_index: "row_currentIndex cached_static = 2"
  "row_currentIndex (cached_static\<lparr>s_cursor := Some 4\<rparr>) = 4"
  by (simp_all add: row_currentIndex_def cached_static_def Math_max_def)

theorem emission_step_witness:
  "row_currentIndex cached_static
     < row_effectiveTotal limit4_options (row_window limit4_options five_rows) \<and>
   (\<exists>item. emit limit4_options five_rows cached_static =
             (Inr item, cached_static\<lparr>s_cursor := Some 3\<rparr>) \<and>
           row_number item = 2 \<and> rowsLeft item = 1 \<and>
           row_id item = ''r2'' \<and>
           progress item = \<lparr>current = 3, total = 4, percentage = 75, remaining = 1\<rparr>) \<and>
   row_effectiveTotal limit4_options (row_window limit4_options five_rows)
     \<le> row_currentIndex (cached_static\<lparr>s_cursor := Some 4\<rparr>) \<and>
   emit limit4_options five_rows (cached_static\<lparr>s_cursor := Some 4\<rparr>) =
     (Inl RowsExhausted, cached_static\<lparr>s_cursor := Some 4\<rparr>) \<and>
   \<not> needsReload ''ds1'' limit4_options cached_static \<and>
   s_processedDataset cached_static = Some five_rows \<and>
   result (execute ds1_service (\<lambda>_. 0) ''ds1'' limit4_options cached_static) =
     fst (emit limit4_options five_rows cached_static) \<and>
   (0::int) \<le> 2 \<and> (2::int) < 4 \<and>
   percentage (progress (row_output (example_row ''r2'') 2 4)) = 75"
proof -
  have nr: "\<not> needsReload ''ds1'' limit4_options cached_static"
    by (simp add: needsReload_def limit4_options_def seed0_options_def scenario_options_def
        cached_static_def)
  have cs: "s_processedDataset cached_static = Some five_rows"
    by (simp add: cached_static_def)
  have w: "r_id (row_window limit4_options five_rows ! nat 2) = ''r2''"
    by code_simp
  note A = emission_step
    [of limit4_options five_rows cached_static "''ds1''" ds1_service "\<lambda>_. 0",
      unfolded Let_def limit4_total cached_index]
  note B = emission_step
    [of limit4_options five_rows "cached_static\<lparr>s_cursor := Some 4\<rparr>" "''ds1''" ds1_service
      "\<lambda>_. 0", unfolded Let_def limit4_total cached_index]
  from A have a1: "\<exists>item. emit limit4_options five_rows cached_static =
             (Inr item, cached_static\<lparr>s_cursor := Some 3\<rparr>) \<and>
           row_number item = 2 \<and> rowsLeft item = 1 \<and>
           row_id item = ''r2'' \<and>
           progress item = \<lparr>current = 3, total = 4, percentage = 75, remaining = 1\<rparr>"
    using w quarter_percentages(3) by auto
  from A nr cs have a2: "result (execute ds1_service (\<lambda>_. 0) ''ds1'' limit4_options cached_static) =
     fst (emit limit4_options five_rows cached_static)" by blast
  from A have a3: "percentage (progress (row_output (example_row ''r2'') 2 4)) = 75"
    by auto
  from B have b: "emit limit4_options five_rows (cached_static\<lparr>s_cursor := Some 4\<rparr>) =
     (Inl RowsExhausted, cached_static\<lparr>s_cursor := Some 4\<rparr>)"
    by (auto simp: prod_eq_iff)
  from a1 a2 a3 b nr cs show ?thesis
    by (simp add: limit4_total cached_index)
qed


section \<open>Window and limit\<close>

lemma filter_index_nth:
  "filter_index p xs = map (\<lambda>i. xs ! i) (filter p [0 ..< length xs])"
proof -
  have z: "zip [0 ..< length xs] xs = map (\<lambda>i. (i, xs ! i)) [0 ..< length xs]"
    by (rule nth_equalityI) simp_all
  have "filter (\<lambda>(index, _). p index) (map (\<lambda>i. (i, xs ! i)) [0 ..< length xs])
          = map (\<lambda>i. (i, xs ! i)) (filter p [0 ..< length xs])"
    by (simp add: filter_map o_def)
  then show ?thesis
    by (simp add: filter_index_def enumerate_eq_zip z o_def)
qed

lemma take_drop_nth:
  assumes "m \<le> length xs"
  shows "take (m - k) (drop k xs) = map (\<lambda>p. xs ! p) [k ..< m]"
proof (rule nth_equalityI)
  show "length (take (m - k) (drop k xs)) = length (map (\<lambda>p. xs ! p) [k ..< m])"
    using assms by simp
next
  fix i
  assume "i < length (take (m - k) (drop k xs))"
  then have i: "i < m - k" by simp
  with assms have "k + i \<le> length xs" by simp
  with i show "take (m - k) (drop k xs) ! i = map (\<lambda>p. xs ! p) [k ..< m] ! i"
    by simp
qed

lemma slice_nth:
  assumes "0 \<le> a" and "0 \<le> b" and "b \<le> int (length xs)"
  shows "slice xs a b = map (\<lambda>p. xs ! p) [nat a ..< nat b]"
proof (cases "a \<le> int (length xs)")
  case True
  with assms have "slice xs a b = take (nat (b - a)) (drop (nat a) xs)"
    by (simp add: slice_def Let_def min_def)
  also have "nat (b - a) = nat b - nat a"
    using assms(1) by (simp add: nat_diff_distrib')
  also have "take (nat b - nat a) (drop (nat a) xs) = map (\<lambda>p. xs ! p) [nat a ..< nat b]"
    using assms(3) by (intro take_drop_nth) simp
  finally show ?thesis .
next
  case False
  with assms show ?thesis
    by (simp add: slice_def Let_def min_def)
qed


lemma slice_beyond:
  assumes "int (length xs) \<le> a"
  shows "slice xs a b = []"
  using assms by (simp add: slice_def Let_def min_def)

lemma filter_index_Nil [simp]: "filter_index p [] = []"
  by (simp add: filter_index_def)

lemma batch_window_eq: "batch_window opts xs = row_window opts xs"
  by (simp add: batch_window_def row_window_def)

lemma row_window_spec:
  assumes "case endRow opts of None \<Rightarrow> True | Some e \<Rightarrow> - 1 \<le> e"
  shows "row_window opts xs = spec_window opts xs"
proof -
  define a where "a = max 0 (case startRow opts of None \<Rightarrow> 0 | Some v \<Rightarrow> v)"
  define b where "b = (case endRow opts of
               None \<Rightarrow> int (length xs)
             | Some e \<Rightarrow> if e = - 1 then int (length xs) else min (e + 1) (int (length xs)))"
  have b': "b = (case endRow opts of
               None \<Rightarrow> int (length xs)
             | Some e \<Rightarrow> if e \<noteq> - 1 then Math_min (e + 1) (int (length xs)) else int (length xs))"
    by (simp add: b_def Math_min_def split: option.splits)
  have "0 \<le> a" by (simp add: a_def)
  moreover have "0 \<le> b" "b \<le> int (length xs)"
    using assms by (auto simp: b_def split: option.splits)
  ultimately have s: "slice xs a b = map (\<lambda>p. xs ! p) [nat a ..< nat b]"
    by (rule slice_nth)
  show ?thesis
    unfolding row_window_def spec_window_def Let_def Math_max_def
      a_def [symmetric] b_def [symmetric] b' [symmetric] s filter_index_nth
    by simp
qed


text \<open>
  Claim C4, amended.  When \<^verbatim>\<open>endRow\<close> is undefined, the sentinel \<open>-1\<close> or not
  negative, the working set of the row trigger and of the batch trigger is the window of
  the specification: the rows at positions from \<open>max 0 startRow\<close> up to the end index,
  thinned to the positions divisible by the step when the step is above 1.  With
  \<^verbatim>\<open>startRow = 2\<close>, \<^verbatim>\<open>endRow = 7\<close>, \<^verbatim>\<open>stepSize = 2\<close> ten rows give r2, r4, r6.
\<close>

theorem window_follows_spec:
  "((case endRow opts of None \<Rightarrow> True | Some e \<Rightarrow> - 1 \<le> e) \<longrightarrow>
      row_window opts xs = spec_window opts xs \<and> batch_window opts xs = spec_window opts xs) \<and>
   row_window window_options ten_rows = map example_row [''r2'', ''r4'', ''r6''] \<and>
   batch_window window_options ten_rows = map example_row [''r2'', ''r4'', ''r6'']"
proof -
  have "row_window window_options ten_rows = map example_row [''r2'', ''r4'', ''r6'']"
    by code_simp
  then show ?thesis
    by (simp add: row_window_spec batch_window_eq)
qed

theorem window_follows_spec_witness:
  "(case endRow window_options of None \<Rightarrow> True | Some e \<Rightarrow> - 1 \<le> e) \<and>
   row_window window_options ten_rows = spec_window window_options ten_rows \<and>
   batch_window window_options ten_rows = spec_window window_options ten_rows \<and>
   spec_window window_options ten_rows = map example_row [''r2'', ''r4'', ''r6'']"
proof -
  have h: "case endRow window_options of None \<Rightarrow> True | Some e \<Rightarrow> - 1 \<le> e"
    by (simp add: window_options_def)
  from window_follows_spec [of window_options ten_rows] h show ?thesis by auto
qed

text \<open>
  Claim C4 as stated covers every \<^verbatim>\<open>endRow\<close>.  For \<^verbatim>\<open>endRow = -5\<close> the end index is
  \<open>-4\<close> and the interval from 0 to \<open>-4\<close> is empty, but \<^verbatim>\<open>slice(0, -4)\<close> counts the
  negative index from the end and keeps the first six of ten rows.
\<close>

theorem negative_end_counterexample:
  "row_window (no_options\<lparr>endRow := Some (- 5)\<rparr>) ten_rows =
     map example_row [''r0'', ''r1'', ''r2'', ''r3'', ''r4'', ''r5''] \<and>
   spec_window (no_options\<lparr>endRow := Some (- 5)\<rparr>) ten_rows = []"
  by code_simp

text \<open>
  Claim C8 as stated has the start index clamped into \<open>[0, L)\<close>, so that
  \<^verbatim>\<open>startRow = 5\<close> over three rows would behave as \<^verbatim>\<open>startRow = 2\<close>.  The code gives
  the empty working set for 5 and the last row for 2.
\<close>

theorem start_beyond_length_counterexample:
  "row_window (no_options\<lparr>startRow := Some 5\<rparr>) three_rows = [] \<and>
   row_window
     (no_options\<lparr>startRow := Some (max 0 (min 5 (int (length three_rows) - 1)))\<rparr>) three_rows =
     [example_row ''r2'']"
  by code_simp

text \<open>
  Claim C8, amended.  A negative \<^verbatim>\<open>startRow\<close> behaves as 0; a \<^verbatim>\<open>startRow\<close> of the
  snapshot length \<open>L\<close> or more gives the empty working set (the start is clamped into
  \<open>[0, L]\<close>); an \<^verbatim>\<open>endRow\<close> of \<open>L - 1\<close> or more behaves as \<open>L - 1\<close> and as no
  \<^verbatim>\<open>endRow\<close> at all; a \<^verbatim>\<open>stepSize\<close> below 1 behaves as 1.
\<close>

theorem window_clamping:
  "(\<forall>s. startRow opts = Some s \<and> s < 0 \<longrightarrow>
        row_window opts xs = row_window (opts\<lparr>startRow := Some 0\<rparr>) xs) \<and>
   (\<forall>s. startRow opts = Some s \<and> int (length xs) \<le> s \<longrightarrow> row_window opts xs = []) \<and>
   (\<forall>e. endRow opts = Some e \<and> int (length xs) - 1 \<le> e \<longrightarrow>
        row_window opts xs = row_window (opts\<lparr>endRow := Some (int (length xs) - 1)\<rparr>) xs \<and>
        row_window opts xs = row_window (opts\<lparr>endRow := None\<rparr>) xs) \<and>
   (\<forall>k. stepSize opts = Some k \<and> k < 1 \<longrightarrow>
        row_window opts xs = row_window (opts\<lparr>stepSize := Some 1\<rparr>) xs)"
proof (intro conjI allI impI)
  fix s assume "startRow opts = Some s \<and> s < 0"
  then show "row_window opts xs = row_window (opts\<lparr>startRow := Some 0\<rparr>) xs"
    by (simp add: row_window_def Math_max_def)
next
  fix s assume "startRow opts = Some s \<and> int (length xs) \<le> s"
  then have "Math_max 0 (case startRow opts of None \<Rightarrow> 0 | Some v \<Rightarrow> v) = s"
    "int (length xs) \<le> s"
    by (auto simp: Math_max_def)
  then show "row_window opts xs = []"
    by (simp add: row_window_def Let_def slice_beyond)
next
  fix e assume e: "endRow opts = Some e \<and> int (length xs) - 1 \<le> e"
  then show "row_window opts xs = row_window (opts\<lparr>endRow := Some (int (length xs) - 1)\<rparr>) xs"
    by (auto simp: row_window_def Math_min_def Let_def)
  from e show "row_window opts xs = row_window (opts\<lparr>endRow := None\<rparr>) xs"
    by (auto simp: row_window_def Math_min_def Let_def)
next
  fix k assume "stepSize opts = Some k \<and> k < 1"
  then show "row_window opts xs = row_window (opts\<lparr>stepSize := Some 1\<rparr>) xs"
    by (simp add: row_window_def Let_def)
qed

theorem window_clamping_witness:
  "startRow (no_options\<lparr>startRow := Some (- 3)\<rparr>) = Some (- 3) \<and> (- 3 :: int) < 0 \<and>
   row_window (no_options\<lparr>startRow := Some (- 3)\<rparr>) three_rows =
     row_window (no_options\<lparr>startRow := Some 0\<rparr>) three_rows \<and>
   startRow (no_options\<lparr>startRow := Some 5\<rparr>) = Some 5 \<and> int (length three_rows) \<le> 5 \<and>
   row_window (no_options\<lparr>startRow := Some 5\<rparr>) three_rows = [] \<and>
   endRow (no_options\<lparr>endRow := Some 9\<rparr>) = Some 9 \<and> int (length three_rows) - 1 \<le> 9 \<and>
   row_window (no_options\<lparr>endRow := Some 9\<rparr>) three_rows =
     row_window (no_options\<lparr>endRow := None\<rparr>) three_rows \<and>
   stepSize (no_options\<lparr>stepSize := Some 0\<rparr>) = Some 0 \<and> (0 :: int) < 1 \<and>
   row_window (no_options\<lparr>stepSize := Some 0\<rparr>) three_rows =
     row_window (no_options\<lparr>stepSize := Some 1\<rparr>) three_rows"
proof -
  have l: "int (length three_rows) = 3" by (simp add: three_rows_def)
  have ha: "startRow (no_options\<lparr>startRow := Some (- 3)\<rparr>) = Some (- 3) \<and> (- 3 :: int) < 0"
    by simp
  have hb: "startRow (no_options\<lparr>startRow := Some 5\<rparr>) = Some 5 \<and> int (length three_rows) \<le> 5"
    by (simp add: l)
  have hc: "endRow (no_options\<lparr>endRow := Some 9\<rparr>) = Some 9 \<and> int (length three_rows) - 1 \<le> 9"
    by (simp add: l)
  have hd: "stepSize (no_options\<lparr>stepSize := Some 0\<rparr>) = Some 0 \<and> (0 :: int) < 1"
    by simp
  have a: "row_window (no_options\<lparr>startRow := Some (- 3)\<rparr>) three_rows =
     row_window (no_options\<lparr>startRow := Some 0\<rparr>) three_rows"
    using window_clamping [of "no_options\<lparr>startRow := Some (- 3)\<rparr>" three_rows,
        THEN conjunct1, rule_format, OF ha]
    by simp
  have b: "row_window (no_options\<lparr>startRow := Some 5\<rparr>) three_rows = []"
    using window_clamping [of "no_options\<lparr>startRow := Some 5\<rparr>" three_rows,
        THEN conjunct2, THEN conjunct1, rule_format, OF hb]
    by simp
  have c: "row_window (no_options\<lparr>endRow := Some 9\<rparr>) three_rows =
     row_window (no_options\<lparr>endRow := None\<rparr>) three_rows"
    using window_clamping [of "no_options\<lparr>endRow := Some 9\<rparr>" three_rows,
        THEN conjunct2, THEN conjunct2, THEN conjunct1, rule_format, OF hc, THEN conjunct2]
    by simp
  have d: "row_window (no_options\<lparr>stepSize := Some 0\<rparr>) three_rows =
     row_window (no_options\<lparr>stepSize := Some 1\<rparr>) three_rows"
    using window_clamping [of "no_options\<lparr>stepSize := Some 0\<rparr>" three_rows,
        THEN conjunct2, THEN conjunct2, THEN conjunct2, rule_format, OF hd]
    by simp
  from ha hb hc hd a b c d show ?thesis by blast
qed





end
